theory Spec2Isabelle
  imports Main "HOL-Library.Word" "HOL-Library.Product_Lexorder" "HOL-Library.Multiset"
begin

section \<open>Data model of the masternode manager (masternodeman.cpp)\<close>

text \<open>
  The manager keeps a registry \<open>mapMasternodes\<close> (a \<open>std::map\<close> from collateral outpoint to
  masternode entry) and a number of gossip caches. The types of outpoints, network addresses,
  keys and hashes are declared outside masternodeman.cpp; they are modelled by fixed-width
  words and pairs. \<open>std::map\<close> iterates in key order, and several loops of the manager depend
  on that order, so the registry is an association list kept sorted by key. Only the
  linearity of the key order is used below.
\<close>

type_synonym uint256 = "256 word"
type_synonym COutPoint = "uint256 \<times> 32 word"
type_synonym CNetAddr = "128 word"
type_synonym CService = "CNetAddr \<times> 16 word"
type_synonym CPubKey = "8 word list"
type_synonym vchSig = "8 word list"

text \<open>
  Modelled from the spec: the entry state machine of section 3.3 (the enum itself is
  declared in masternode.h).
\<close>

datatype ActiveState =
    MASTERNODE_PRE_ENABLED
  | MASTERNODE_ENABLED
  | MASTERNODE_EXPIRED
  | MASTERNODE_OUTPOINT_SPENT
  | MASTERNODE_UPDATE_REQUIRED
  | MASTERNODE_SENTINEL_PING_EXPIRED
  | MASTERNODE_NEW_START_REQUIRED
  | MASTERNODE_POSE_BAN

record CMasternodePing =
  masternodeOutpoint :: COutPoint
  blockHash_p :: uint256
  sigTime_p :: int
  fSentinelIsCurrent :: bool
  nDaemonVersion :: int

record CMasternode =
  outpoint :: COutPoint
  addr :: CService
  pubKeyCollateralAddress :: CPubKey
  pubKeyMasternode :: CPubKey
  sigTime :: int
  nProtocolVersion :: int
  lastPing :: CMasternodePing
  nBlockLastPaid :: int
  nPoSeBanScore :: int
  nActiveState :: ActiveState
  fAllowMixingTx :: bool
  nLastDsq :: int

text \<open>\<open>CMasternodeBroadcast\<close> derives from \<open>CMasternode\<close> and adds the recovery flag.\<close>

record CMasternodeBroadcast = CMasternode +
  fRecovery :: bool

record CMasternodeVerification =
  addr_v :: CService
  nonce :: int
  nBlockHeight_v :: int
  vchSig1 :: vchSig
  vchSig2 :: vchSig
  masternodeOutpoint1 :: COutPoint
  masternodeOutpoint2 :: COutPoint

record CNode =
  node_id :: int
  node_addr :: CService

text \<open>The identity of the local node, \<open>activeMasternode\<close>.\<close>

record CActiveMasternode =
  am_outpoint :: COutPoint
  am_service :: CService
  am_pubKeyMasternode :: CPubKey

text \<open>Calls into the network layer and other collaborators, in the order they are made.\<close>

datatype event =
    Misbehaving int int
  | RelayVerification CMasternodeVerification
  | RelayBroadcast CMasternodeBroadcast
  | BumpAssetLastTime
  | ManageState
  | CheckMasternodeOrphans
  | UpdateCachesAndClean

record CMasternodeMan =
  mapMasternodes :: "(COutPoint \<times> CMasternode) list"
  mAskedUsForMasternodeList :: "CService \<rightharpoonup> int"
  mWeAskedForMasternodeList :: "CService \<rightharpoonup> int"
  mWeAskedForMasternodeListEntry :: "COutPoint \<rightharpoonup> (CService \<times> int) list"
  mWeAskedForVerification :: "CService \<rightharpoonup> CMasternodeVerification"
  mMnbRecoveryRequests :: "uint256 \<rightharpoonup> (int \<times> CService list)"
  mMnbRecoveryGoodReplies :: "(uint256 \<times> CMasternodeBroadcast list) list"
  listScheduledMnbRequestConnections :: "(CService \<times> uint256) list"
  fMasternodesAdded :: bool
  fMasternodesRemoved :: bool
  mapSeenMasternodeBroadcast :: "uint256 \<rightharpoonup> (int \<times> CMasternodeBroadcast)"
  mapSeenMasternodePing :: "uint256 \<rightharpoonup> CMasternodePing"
  mapSeenMasternodeVerification :: "uint256 \<rightharpoonup> CMasternodeVerification"
  mapWeShouldAskForVerification :: "COutPoint \<rightharpoonup> int"
  nCachedBlockHeight :: int
  nDsqCount :: int
  nLastSentinelPingTime :: int
  netfulfilled :: "(CService \<times> string) list"

subsection \<open>\<open>std::map\<close> as a key-sorted association list\<close>

fun map_assign :: "'k::linorder \<Rightarrow> 'v \<Rightarrow> ('k \<times> 'v) list \<Rightarrow> ('k \<times> 'v) list" where
  "map_assign k v [] = [(k, v)]"
| "map_assign k v ((k', v') # m) =
     (if k < k' then (k, v) # (k', v') # m
      else if k = k' then (k, v) # m
      else (k', v') # map_assign k v m)"

definition map_erase :: "'k \<Rightarrow> ('k \<times> 'v) list \<Rightarrow> ('k \<times> 'v) list" where
  "map_erase k m = filter (\<lambda>p. fst p \<noteq> k) m"

subsection \<open>Collaborators outside masternodeman.cpp\<close>

text \<open>
  The manager reads the sync state, the chain, the payment scheduler, the signers, the
  clock and the constants of masternode.h and masternodeman.h through calls whose code is not
  in masternodeman.cpp. They are the fields of one environment value, fixed for the duration
  of a call. Methods of \<open>CMasternode\<close> that depend on the chain or the clock
  (\<open>Check\<close>, \<open>CalculateScore\<close>, \<open>IsValidForPayment\<close>) are parameters too. The test
  \<open>sigTime + (nMnCount*2.6*60) > GetAdjustedTime()\<close> is a floating-point comparison and is
  taken as the parameter \<open>SigTimeTooNew\<close> of the entry and the count.
\<close>

record Env =
  IsBlockchainSynced :: bool
  IsMasternodeListSynced :: bool
  IsWinnersListSynced :: bool
  IsSynced :: bool
  GetBlockHash :: "int \<Rightarrow> uint256 option"
  GetTime :: int
  GetRandInt :: "nat \<Rightarrow> int \<Rightarrow> int"
  IsArgSet_connect :: bool
  GetMinMasternodePaymentsProto :: int
  IsScheduled :: "CMasternode \<Rightarrow> int \<Rightarrow> bool"
  GetUTXOConfirmations :: "COutPoint \<Rightarrow> int"
  SigTimeTooNew :: "CMasternode \<Rightarrow> int \<Rightarrow> bool"
  CalculateScore :: "CMasternode \<Rightarrow> uint256 \<Rightarrow> uint256"
  IsValidForPayment :: "CMasternode \<Rightarrow> bool"
  IsPoSeVerified :: "CMasternode \<Rightarrow> bool"
  Check :: "CMasternode \<Rightarrow> CMasternode"
  IsValidStateForAutoStart :: "ActiveState \<Rightarrow> bool"
  IsExpired :: "CMasternodePing \<Rightarrow> bool"
  GetHash_mnb :: "CMasternodeBroadcast \<Rightarrow> uint256"
  SimpleCheck :: "CMasternodeBroadcast \<Rightarrow> int \<Rightarrow> bool \<times> int"
  Update :: "CMasternodeBroadcast \<Rightarrow> CMasternode \<Rightarrow> int \<Rightarrow> bool \<times> int \<times> CMasternode"
  CheckOutpoint :: "CMasternodeBroadcast \<Rightarrow> int \<Rightarrow> bool \<times> int"
  CheckAddr :: "CMasternodeBroadcast \<Rightarrow> int \<Rightarrow> bool \<times> int"
  DefaultBroadcast :: CMasternodeBroadcast
  GetMasternodeRanks_nMinProtocol :: int
  GetHash_mnv :: "CMasternodeVerification \<Rightarrow> uint256"
  GetSignatureHash1 :: "CMasternodeVerification \<Rightarrow> uint256 \<Rightarrow> uint256"
  GetSignatureHash2 :: "CMasternodeVerification \<Rightarrow> uint256 \<Rightarrow> uint256"
  IsSporkActive_NEW_SIGS :: bool
  VerifyHash :: "uint256 \<Rightarrow> CPubKey \<Rightarrow> vchSig \<Rightarrow> bool"
  VerifyMessage :: "CPubKey \<Rightarrow> vchSig \<Rightarrow> string \<Rightarrow> bool"
  SignHash :: "uint256 \<Rightarrow> vchSig option"
  SignMessage :: "string \<Rightarrow> vchSig option"
  strMessage1 :: "CService \<Rightarrow> int \<Rightarrow> uint256 \<Rightarrow> string"
  strMessage2 :: "CService \<Rightarrow> int \<Rightarrow> uint256 \<Rightarrow> COutPoint \<Rightarrow> COutPoint \<Rightarrow> string"
  ConnectSocket :: "CService \<Rightarrow> bool"
  IsIPv4 :: "CService \<Rightarrow> bool"
  IsIPv6 :: "CService \<Rightarrow> bool"
  fOkDual :: bool
  fOkIPv4 :: bool
  fOkIPv6 :: bool
  fMasternodeMode :: bool
  activeMasternode :: CActiveMasternode
  MASTERNODE_POSE_BAN_MAX_SCORE :: int
  MNB_RECOVERY_MAX_ASK_ENTRIES :: int
  MNB_RECOVERY_QUORUM_TOTAL :: nat
  MNB_RECOVERY_QUORUM_REQUIRED :: nat
  MNB_RECOVERY_WAIT_SECONDS :: int
  MNB_RECOVERY_RETRY_SECONDS :: int
  MAX_POSE_BLOCKS :: int
  MAX_POSE_RANK :: int
  MIN_POSE_PROTO_VERSION :: int
  MASTERNODE_NEW_START_REQUIRED_SECONDS :: int
  MASTERNODE_MIN_MNP_SECONDS :: int
  PROTOCOL_VERSION :: int

subsection \<open>Methods of \<open>CMasternode\<close> used by the manager\<close>

text \<open>
  Modelled from the spec: the state predicates of \<open>CMasternode\<close> (masternode.h) test the
  entry's state, as in section 3.3.
\<close>

definition IsOutpointSpent :: "CMasternode \<Rightarrow> bool" where
  "IsOutpointSpent mn = (nActiveState mn = MASTERNODE_OUTPOINT_SPENT)"

definition IsUpdateRequired :: "CMasternode \<Rightarrow> bool" where
  "IsUpdateRequired mn = (nActiveState mn = MASTERNODE_UPDATE_REQUIRED)"

definition IsPoSeBanned :: "CMasternode \<Rightarrow> bool" where
  "IsPoSeBanned mn = (nActiveState mn = MASTERNODE_POSE_BAN)"

definition IsNewStartRequired :: "CMasternode \<Rightarrow> bool" where
  "IsNewStartRequired mn = (nActiveState mn = MASTERNODE_NEW_START_REQUIRED)"

text \<open>
  Modelled from the spec: the score methods of \<open>CMasternode\<close> (masternode.h). Section 3.2
  keeps \<open>pose_ban_score\<close> in \<open>[0, MAX_POSE_BAN_SCORE]\<close>, a step changes it by one, and
  reaching the maximum is what bans the entry.
\<close>

definition mn_IncreasePoSeBanScore :: "Env \<Rightarrow> CMasternode \<Rightarrow> CMasternode" where
  "mn_IncreasePoSeBanScore env mn =
     (if nPoSeBanScore mn < MASTERNODE_POSE_BAN_MAX_SCORE env
      then mn\<lparr> nPoSeBanScore := nPoSeBanScore mn + 1 \<rparr> else mn)"

definition mn_DecreasePoSeBanScore :: "Env \<Rightarrow> CMasternode \<Rightarrow> CMasternode" where
  "mn_DecreasePoSeBanScore env mn =
     (if nPoSeBanScore mn > 0
      then mn\<lparr> nPoSeBanScore := nPoSeBanScore mn - 1 \<rparr> else mn)"

definition mn_PoSeBan :: "Env \<Rightarrow> CMasternode \<Rightarrow> CMasternode" where
  "mn_PoSeBan env mn = mn\<lparr> nPoSeBanScore := MASTERNODE_POSE_BAN_MAX_SCORE env \<rparr>"

text \<open>Writing through a pointer obtained from \<open>Find\<close>: the entry under that key changes.\<close>

definition update_entry ::
  "COutPoint \<Rightarrow> (CMasternode \<Rightarrow> CMasternode) \<Rightarrow> (COutPoint \<times> CMasternode) list
     \<Rightarrow> (COutPoint \<times> CMasternode) list" where
  "update_entry k f m = map (\<lambda>p. if fst p = k then (fst p, f (snd p)) else p) m"

text \<open>The constructor \<open>CMasternodeMan::CMasternodeMan()\<close>; the cached height is not set by it.\<close>

definition CMasternodeMan_init :: "int \<Rightarrow> CMasternodeMan" where
  "CMasternodeMan_init h =
     \<lparr> mapMasternodes = [],
       mAskedUsForMasternodeList = Map.empty,
       mWeAskedForMasternodeList = Map.empty,
       mWeAskedForMasternodeListEntry = Map.empty,
       mWeAskedForVerification = Map.empty,
       mMnbRecoveryRequests = Map.empty,
       mMnbRecoveryGoodReplies = [],
       listScheduledMnbRequestConnections = [],
       fMasternodesAdded = False,
       fMasternodesRemoved = False,
       mapSeenMasternodeBroadcast = Map.empty,
       mapSeenMasternodePing = Map.empty,
       mapSeenMasternodeVerification = Map.empty,
       mapWeShouldAskForVerification = Map.empty,
       nCachedBlockHeight = h,
       nDsqCount = 0,
       nLastSentinelPingTime = 0,
       netfulfilled = [] \<rparr>"

section \<open>Registry store\<close>

definition Find :: "COutPoint \<Rightarrow> CMasternodeMan \<Rightarrow> CMasternode option" where
  "Find op st = map_of (mapMasternodes st) op"

definition Has :: "COutPoint \<Rightarrow> CMasternodeMan \<Rightarrow> bool" where
  "Has op st = (map_of (mapMasternodes st) op \<noteq> None)"

fun HasAddr_loop :: "CService \<Rightarrow> (COutPoint \<times> CMasternode) list \<Rightarrow> bool" where
  "HasAddr_loop a [] = False"
| "HasAddr_loop a (mnpair # rest) =
     (if a = addr (snd mnpair) then True else HasAddr_loop a rest)"

definition HasAddr :: "CService \<Rightarrow> CMasternodeMan \<Rightarrow> bool" where
  "HasAddr a st = HasAddr_loop a (mapMasternodes st)"

definition Add :: "CMasternode \<Rightarrow> CMasternodeMan \<Rightarrow> bool \<times> CMasternodeMan" where
  "Add mn st =
     (if Has (outpoint mn) st then (False, st)
      else if HasAddr (addr mn) st then (False, st)
      else (True, st\<lparr> mapMasternodes := map_assign (outpoint mn) mn (mapMasternodes st),
                       fMasternodesAdded := True \<rparr>))"

text \<open>
  The constructor \<open>CMasternodeBroadcast(const CMasternode&)\<close> and the slicing of a broadcast
  to its base when it is passed as a \<open>CMasternode&\<close>.
\<close>

definition mnb_of_mn :: "CMasternode \<Rightarrow> CMasternodeBroadcast" where
  "mnb_of_mn mn = CMasternode.extend mn (CMasternodeBroadcast.fields False)"

definition mn_of_mnb :: "CMasternodeBroadcast \<Rightarrow> CMasternode" where
  "mn_of_mnb mnb = CMasternode.truncate mnb"

text \<open>
  The removal branch of the loop of \<open>CheckAndRemove\<close> over the registry, at the entry under
  key \<open>k\<close>: the seen broadcast of the entry and the asked-for table of its key are erased,
  then the entry. The governance hashes that \<open>FlagGovernanceItemsAsDirty\<close> hands to the
  governance manager are not part of this model.
\<close>

definition remove_entry ::
  "Env \<Rightarrow> COutPoint \<Rightarrow> CMasternode \<Rightarrow> CMasternodeMan \<Rightarrow> CMasternodeMan" where
  "remove_entry env k mn st =
     st\<lparr> mapSeenMasternodeBroadcast :=
           (mapSeenMasternodeBroadcast st)(GetHash_mnb env (mnb_of_mn mn) := None),
         mWeAskedForMasternodeListEntry := (mWeAskedForMasternodeListEntry st)(k := None),
         mapMasternodes := map_erase k (mapMasternodes st),
         fMasternodesRemoved := True \<rparr>"

definition Clear :: "CMasternodeMan \<Rightarrow> CMasternodeMan" where
  "Clear st =
     st\<lparr> mapMasternodes := [],
         mAskedUsForMasternodeList := Map.empty,
         mWeAskedForMasternodeList := Map.empty,
         mWeAskedForMasternodeListEntry := Map.empty,
         mapSeenMasternodeBroadcast := Map.empty,
         mapSeenMasternodePing := Map.empty,
         nDsqCount := 0,
         nLastSentinelPingTime := 0 \<rparr>"

text \<open>Sequences of insertions and removals on the registry.\<close>

datatype registry_op = OpAdd CMasternode | OpRemove COutPoint | OpClear

definition apply_op :: "Env \<Rightarrow> CMasternodeMan \<Rightarrow> registry_op \<Rightarrow> CMasternodeMan" where
  "apply_op env st op =
     (case op of
        OpAdd mn \<Rightarrow> snd (Add mn st)
      | OpRemove k \<Rightarrow> (case Find k st of None \<Rightarrow> st | Some mn \<Rightarrow> remove_entry env k mn st)
      | OpClear \<Rightarrow> Clear st)"

definition run_ops :: "Env \<Rightarrow> registry_op list \<Rightarrow> CMasternodeMan \<Rightarrow> CMasternodeMan" where
  "run_ops env ops st = foldl (apply_op env) st ops"

subsection \<open>PoSe scoring through the manager\<close>

definition IncreasePoSeBanScore ::
  "Env \<Rightarrow> COutPoint \<Rightarrow> CMasternodeMan \<Rightarrow> bool \<times> CMasternodeMan" where
  "IncreasePoSeBanScore env op st =
     (if op = am_outpoint (activeMasternode env) then (False, st)
      else case Find op st of
        None \<Rightarrow> (False, st)
      | Some pmn \<Rightarrow>
          (True, st\<lparr> mapMasternodes :=
             update_entry op (mn_IncreasePoSeBanScore env) (mapMasternodes st) \<rparr>))"

definition DecreasePoSeBanScore ::
  "Env \<Rightarrow> COutPoint \<Rightarrow> CMasternodeMan \<Rightarrow> bool \<times> CMasternodeMan" where
  "DecreasePoSeBanScore env op st =
     (if op = am_outpoint (activeMasternode env) then (False, st)
      else case Find op st of
        None \<Rightarrow> (False, st)
      | Some pmn \<Rightarrow>
          (True, st\<lparr> mapMasternodes :=
             update_entry op (mn_DecreasePoSeBanScore env) (mapMasternodes st) \<rparr>))"

definition PoSeBan ::
  "Env \<Rightarrow> COutPoint \<Rightarrow> CMasternodeMan \<Rightarrow> bool \<times> CMasternodeMan" where
  "PoSeBan env op st =
     (if op = am_outpoint (activeMasternode env) then (False, st)
      else case Find op st of
        None \<Rightarrow> (False, st)
      | Some pmn \<Rightarrow>
          (True, st\<lparr> mapMasternodes :=
             update_entry op (mn_PoSeBan env) (mapMasternodes st) \<rparr>))"

text \<open>
  The overloads taking a network address walk the registry in key order and hand the first
  entry at that address to the overload taking an outpoint.
\<close>

fun first_at_addr :: "CService \<Rightarrow> (COutPoint \<times> CMasternode) list \<Rightarrow> CMasternode option" where
  "first_at_addr a [] = None"
| "first_at_addr a (mnpair # rest) =
     (if a = addr (snd mnpair) then Some (snd mnpair) else first_at_addr a rest)"

definition IncreasePoSeBanScore_addr ::
  "Env \<Rightarrow> CService \<Rightarrow> CMasternodeMan \<Rightarrow> bool \<times> CMasternodeMan" where
  "IncreasePoSeBanScore_addr env a st =
     (if a = am_service (activeMasternode env) then (False, st)
      else case first_at_addr a (mapMasternodes st) of
        Some mn \<Rightarrow> IncreasePoSeBanScore env (outpoint mn) st
      | None \<Rightarrow> (False, st))"

definition DecreasePoSeBanScore_addr ::
  "Env \<Rightarrow> CService \<Rightarrow> CMasternodeMan \<Rightarrow> bool \<times> CMasternodeMan" where
  "DecreasePoSeBanScore_addr env a st =
     (if a = am_service (activeMasternode env) then (False, st)
      else case first_at_addr a (mapMasternodes st) of
        Some mn \<Rightarrow> DecreasePoSeBanScore env (outpoint mn) st
      | None \<Rightarrow> (False, st))"

definition PoSeBan_addr ::
  "Env \<Rightarrow> CService \<Rightarrow> CMasternodeMan \<Rightarrow> bool \<times> CMasternodeMan" where
  "PoSeBan_addr env a st =
     (if a = am_service (activeMasternode env) then (False, st)
      else case first_at_addr a (mapMasternodes st) of
        Some mn \<Rightarrow> PoSeBan env (outpoint mn) st
      | None \<Rightarrow> (False, st))"

section \<open>Ranking and payment selection\<close>

text \<open>
  \<open>std::sort\<close> with a comparator, as insertion from the right. Where the comparator is a
  strict linear order on the elements sorted, every sorting algorithm returns this list;
  where it leaves elements unordered (\<open>CompareByAddr\<close>, \<open>CompareByPoSeBanScore\<close>), \<open>std::sort\<close>
  may return any sorted arrangement and this is one of them.
\<close>

fun insort_by :: "('a \<Rightarrow> 'a \<Rightarrow> bool) \<Rightarrow> 'a \<Rightarrow> 'a list \<Rightarrow> 'a list" where
  "insort_by cmp x [] = [x]"
| "insort_by cmp x (y # ys) = (if cmp y x then y # insort_by cmp x ys else x # y # ys)"

definition std_sort :: "('a \<Rightarrow> 'a \<Rightarrow> bool) \<Rightarrow> 'a list \<Rightarrow> 'a list" where
  "std_sort cmp xs = foldr (insort_by cmp) xs []"

definition CompareLastPaidBlock :: "int \<times> CMasternode \<Rightarrow> int \<times> CMasternode \<Rightarrow> bool" where
  "CompareLastPaidBlock t1 t2 =
     (if fst t1 \<noteq> fst t2 then fst t1 < fst t2 else outpoint (snd t1) < outpoint (snd t2))"

definition CompareScoreMN :: "uint256 \<times> CMasternode \<Rightarrow> uint256 \<times> CMasternode \<Rightarrow> bool" where
  "CompareScoreMN t1 t2 =
     (if fst t1 \<noteq> fst t2 then fst t1 < fst t2 else outpoint (snd t1) < outpoint (snd t2))"

text \<open>
  \<open>CountMasternodes(int nProtocolVersion)\<close>; the argument \<open>-1\<close>, which is what a call without
  argument passes, stands for the minimum payment protocol.
\<close>

definition CountMasternodes :: "Env \<Rightarrow> int \<Rightarrow> CMasternodeMan \<Rightarrow> int" where
  "CountMasternodes env nProtocolVersion' st =
     (let v = (if nProtocolVersion' = -1 then GetMinMasternodePaymentsProto env
               else nProtocolVersion')
      in int (length (filter (\<lambda>mnpair. \<not> nProtocolVersion (snd mnpair) < v)
                        (mapMasternodes st))))"

text \<open>The first loop of \<open>GetNextMasternodeInQueueForPayment\<close>: the vector of candidates.\<close>

fun last_paid_vec ::
  "Env \<Rightarrow> int \<Rightarrow> bool \<Rightarrow> int \<Rightarrow> (COutPoint \<times> CMasternode) list \<Rightarrow> (int \<times> CMasternode) list"
where
  "last_paid_vec env nBlockHeight fFilterSigTime nMnCount [] = []"
| "last_paid_vec env nBlockHeight fFilterSigTime nMnCount (mnpair # rest) =
     (if \<not> IsValidForPayment env (snd mnpair)
        then last_paid_vec env nBlockHeight fFilterSigTime nMnCount rest
      else if nProtocolVersion (snd mnpair) < GetMinMasternodePaymentsProto env
        then last_paid_vec env nBlockHeight fFilterSigTime nMnCount rest
      else if IsScheduled env (snd mnpair) nBlockHeight
        then last_paid_vec env nBlockHeight fFilterSigTime nMnCount rest
      else if fFilterSigTime \<and> SigTimeTooNew env (snd mnpair) nMnCount
        then last_paid_vec env nBlockHeight fFilterSigTime nMnCount rest
      else if GetUTXOConfirmations env (fst mnpair) < nMnCount
        then last_paid_vec env nBlockHeight fFilterSigTime nMnCount rest
      else (nBlockLastPaid (snd mnpair), snd mnpair)
             # last_paid_vec env nBlockHeight fFilterSigTime nMnCount rest)"

text \<open>
  The second loop: the best score among the oldest entries. The counter is tested after the
  entry has been looked at.
\<close>

fun best_of_tenth ::
  "Env \<Rightarrow> uint256 \<Rightarrow> int \<Rightarrow> (int \<times> CMasternode) list \<Rightarrow> int \<Rightarrow> uint256
     \<Rightarrow> CMasternode option \<Rightarrow> CMasternode option"
where
  "best_of_tenth env blockHash nTenthNetwork [] nCountTenth nHighest pBestMasternode =
     pBestMasternode"
| "best_of_tenth env blockHash nTenthNetwork (s # rest) nCountTenth nHighest pBestMasternode =
     (let nScore = CalculateScore env (snd s) blockHash;
          nHighest' = (if nScore > nHighest then nScore else nHighest);
          pBestMasternode' = (if nScore > nHighest then Some (snd s) else pBestMasternode);
          nCountTenth' = nCountTenth + 1
      in if nCountTenth' \<ge> nTenthNetwork then pBestMasternode'
         else best_of_tenth env blockHash nTenthNetwork rest nCountTenth' nHighest'
                pBestMasternode')"

text \<open>
  Modelled from the spec: \<open>masternode_info_t\<close> and \<open>CMasternode::GetInfo\<close> are declared in
  masternode.h. Section 4.3 gives the result as an optional snapshot of the entry: \<open>None\<close> is
  the default-constructed info, whose \<open>fInfoValid\<close> is false, and \<open>Some mn\<close> the info of
  \<open>mn\<close>, whose \<open>fInfoValid\<close> is true.

  The result is the returned flag, \<open>nCountRet\<close> and \<open>mnInfoRet\<close>.
\<close>

function GetNextMasternodeInQueueForPayment ::
  "Env \<Rightarrow> int \<Rightarrow> bool \<Rightarrow> CMasternodeMan \<Rightarrow> bool \<times> int \<times> CMasternode option"
where
  "GetNextMasternodeInQueueForPayment env nBlockHeight fFilterSigTime st =
     (if \<not> IsWinnersListSynced env then (False, 0, None)
      else
        let nMnCount = CountMasternodes env (-1) st;
            vecMasternodeLastPaid =
              last_paid_vec env nBlockHeight fFilterSigTime nMnCount (mapMasternodes st);
            nCountRet = int (length vecMasternodeLastPaid)
        in if fFilterSigTime \<and> nCountRet < nMnCount div 3
           then GetNextMasternodeInQueueForPayment env nBlockHeight False st
           else
             let sorted = std_sort CompareLastPaidBlock vecMasternodeLastPaid
             in case GetBlockHash env (nBlockHeight - 101) of
                  None \<Rightarrow> (False, nCountRet, None)
                | Some blockHash \<Rightarrow>
                    let nTenthNetwork = nMnCount div 10;
                        pBestMasternode =
                          best_of_tenth env blockHash nTenthNetwork sorted 0 0 None
                    in (pBestMasternode \<noteq> None, nCountRet, pBestMasternode))"
  by pat_completeness auto
termination
  by (relation "measure (\<lambda>(env, h, f, st). if f then 1 else 0)") auto

declare GetNextMasternodeInQueueForPayment.simps [simp del]

text \<open>\<open>GetMasternodeScores\<close>: the flag and \<open>vecMasternodeScoresRet\<close>.\<close>

fun scores_vec ::
  "Env \<Rightarrow> uint256 \<Rightarrow> int \<Rightarrow> (COutPoint \<times> CMasternode) list \<Rightarrow> (uint256 \<times> CMasternode) list"
where
  "scores_vec env nBlockHash nMinProtocol [] = []"
| "scores_vec env nBlockHash nMinProtocol (mnpair # rest) =
     (if nProtocolVersion (snd mnpair) \<ge> nMinProtocol
      then (CalculateScore env (snd mnpair) nBlockHash, snd mnpair)
             # scores_vec env nBlockHash nMinProtocol rest
      else scores_vec env nBlockHash nMinProtocol rest)"

definition GetMasternodeScores ::
  "Env \<Rightarrow> uint256 \<Rightarrow> int \<Rightarrow> CMasternodeMan \<Rightarrow> bool \<times> (uint256 \<times> CMasternode) list" where
  "GetMasternodeScores env nBlockHash nMinProtocol st =
     (if \<not> IsMasternodeListSynced env then (False, [])
      else if mapMasternodes st = [] then (False, [])
      else
        let vec = scores_vec env nBlockHash nMinProtocol (mapMasternodes st);
            vecMasternodeScoresRet = rev (std_sort CompareScoreMN (rev vec))
        in (vecMasternodeScoresRet \<noteq> [], vecMasternodeScoresRet))"

text \<open>\<open>GetMasternodeRank\<close>: the flag and \<open>nRankRet\<close>, which is \<open>-1\<close> when the flag is false.\<close>

fun rank_loop :: "COutPoint \<Rightarrow> (uint256 \<times> CMasternode) list \<Rightarrow> int \<Rightarrow> int option" where
  "rank_loop op [] nRank = None"
| "rank_loop op (scorePair # rest) nRank =
     (if outpoint (snd scorePair) = op then Some (nRank + 1)
      else rank_loop op rest (nRank + 1))"

definition GetMasternodeRank ::
  "Env \<Rightarrow> COutPoint \<Rightarrow> int \<Rightarrow> int \<Rightarrow> CMasternodeMan \<Rightarrow> bool \<times> int" where
  "GetMasternodeRank env op nBlockHeight nMinProtocol st =
     (if \<not> IsMasternodeListSynced env then (False, -1)
      else case GetBlockHash env nBlockHeight of
        None \<Rightarrow> (False, -1)
      | Some nBlockHash \<Rightarrow>
          (case GetMasternodeScores env nBlockHash nMinProtocol st of
             (False, vecMasternodeScores) \<Rightarrow> (False, -1)
           | (True, vecMasternodeScores) \<Rightarrow>
               (case rank_loop op vecMasternodeScores 0 of
                  Some nRank \<Rightarrow> (True, nRank)
                | None \<Rightarrow> (False, -1))))"

text \<open>\<open>GetMasternodeRanks\<close>: the flag and \<open>vecMasternodeRanksRet\<close>.\<close>

fun ranks_loop :: "(uint256 \<times> CMasternode) list \<Rightarrow> int \<Rightarrow> (int \<times> CMasternode) list" where
  "ranks_loop [] nRank = []"
| "ranks_loop (scorePair # rest) nRank =
     (nRank + 1, snd scorePair) # ranks_loop rest (nRank + 1)"

definition GetMasternodeRanks ::
  "Env \<Rightarrow> int \<Rightarrow> int \<Rightarrow> CMasternodeMan \<Rightarrow> bool \<times> (int \<times> CMasternode) list" where
  "GetMasternodeRanks env nBlockHeight nMinProtocol st =
     (if \<not> IsMasternodeListSynced env then (False, [])
      else case GetBlockHash env nBlockHeight of
        None \<Rightarrow> (False, [])
      | Some nBlockHash \<Rightarrow>
          (case GetMasternodeScores env nBlockHash nMinProtocol st of
             (False, vecMasternodeScores) \<Rightarrow> (False, [])
           | (True, vecMasternodeScores) \<Rightarrow> (True, ranks_loop vecMasternodeScores 0)))"

section \<open>Verification protocol\<close>

text \<open>
  Modelled from the spec: the tag of the verification message, which section 4.7 writes
  \<open>MNVERIFY\<close> (the constant \<open>NetMsgType::MNVERIFY\<close> is defined in protocol.cpp). The
  fulfilled-request manager is kept as the list of the pairs it holds.
\<close>

definition MNVERIFY :: string where
  "MNVERIFY = ''MNVERIFY''"

definition HasFulfilledRequest :: "CService \<Rightarrow> string \<Rightarrow> CMasternodeMan \<Rightarrow> bool" where
  "HasFulfilledRequest a tag st = ((a, tag) \<in> set (netfulfilled st))"

definition AddFulfilledRequest :: "CService \<Rightarrow> string \<Rightarrow> CMasternodeMan \<Rightarrow> CMasternodeMan" where
  "AddFulfilledRequest a tag st =
     (if (a, tag) \<in> set (netfulfilled st) then st
      else st\<lparr> netfulfilled := netfulfilled st @ [(a, tag)] \<rparr>)"

text \<open>
  The null outpoint \<open>COutPoint()\<close> and the default-constructed verification that
  \<open>operator[]\<close> of \<open>mWeAskedForVerification\<close> inserts for an address it does not hold.
\<close>

definition COutPoint_null :: COutPoint where
  "COutPoint_null = (0, -1)"

definition CMasternodeVerification_default :: CMasternodeVerification where
  "CMasternodeVerification_default =
     \<lparr> addr_v = (0, 0), nonce = 0, nBlockHeight_v = 0, vchSig1 = [], vchSig2 = [],
       masternodeOutpoint1 = COutPoint_null, masternodeOutpoint2 = COutPoint_null \<rparr>"

definition asked_for_verification ::
  "CService \<Rightarrow> CMasternodeMan \<Rightarrow> CMasternodeVerification \<times> CMasternodeMan" where
  "asked_for_verification a st =
     (case mWeAskedForVerification st a of
        Some v \<Rightarrow> (v, st)
      | None \<Rightarrow>
          (CMasternodeVerification_default,
           st\<lparr> mWeAskedForVerification :=
                 (mWeAskedForVerification st)(a \<mapsto> CMasternodeVerification_default) \<rparr>))"

text \<open>Whether the service key of an entry verifies the first signature of a reply.\<close>

definition verifies_sig1 ::
  "Env \<Rightarrow> uint256 \<Rightarrow> string \<Rightarrow> CMasternodeVerification \<Rightarrow> CMasternode \<Rightarrow> bool" where
  "verifies_sig1 env hash1 strMessage1' mnv mn =
     (if IsSporkActive_NEW_SIGS env
      then VerifyHash env hash1 (pubKeyMasternode mn) (vchSig1 mnv)
      else VerifyMessage env (pubKeyMasternode mn) (vchSig1 mnv) strMessage1')"

text \<open>
  The loop of \<open>ProcessVerifyReply\<close> over the registry. It carries the verification being
  completed, the manager, the calls made, the key of \<open>prealMasternode\<close> and the keys of
  \<open>vpMasternodesToBan\<close>; pointers into the registry are the keys of the entries. The flag
  of the result is true when the loop left the function by \<open>return\<close>.
\<close>

type_synonym reply_loop_state =
  "CMasternodeVerification \<times> CMasternodeMan \<times> event list \<times> COutPoint option \<times> COutPoint list"

text \<open>Components of the state carried by the loop of \<open>ProcessVerifyReply\<close>.\<close>

definition rl_man :: "reply_loop_state \<Rightarrow> CMasternodeMan" where
  "rl_man acc = fst (snd acc)"

definition rl_ban :: "reply_loop_state \<Rightarrow> COutPoint list" where
  "rl_ban acc = snd (snd (snd (snd acc)))"

text \<open>
  The body of the loop for an entry at the peer's address whose key verifies the signature:
  the entry is the real one.
\<close>

definition verify_reply_found ::
  "Env \<Rightarrow> CNode \<Rightarrow> uint256 \<Rightarrow> COutPoint \<times> CMasternode \<Rightarrow> reply_loop_state
     \<Rightarrow> bool \<times> reply_loop_state" where
  "verify_reply_found env pnode bh mnpair acc =
     (case acc of (mnv, st, ev, prealMasternode, vpMasternodesToBan) \<Rightarrow>
        let st1 = (if \<not> IsPoSeVerified env (snd mnpair)
                    then st\<lparr> mapMasternodes :=
                           update_entry (fst mnpair) (mn_DecreasePoSeBanScore env)
                             (mapMasternodes st) \<rparr>
                    else st);
            st2 = AddFulfilledRequest (node_addr pnode) (MNVERIFY @ ''-done'') st1
        in if am_outpoint (activeMasternode env) = COutPoint_null
           then (False, (mnv, st2, ev, Some (fst mnpair), vpMasternodesToBan))
           else
             let mnv1 = mnv\<lparr> addr_v := addr (snd mnpair),
                                masternodeOutpoint1 := outpoint (snd mnpair),
                                masternodeOutpoint2 := am_outpoint (activeMasternode env) \<rparr>;
                 signed =
                   (if IsSporkActive_NEW_SIGS env
                    then SignHash env (GetSignatureHash2 env mnv1 bh)
                    else SignMessage env
                           (strMessage2 env (addr_v mnv1) (nonce mnv1) bh
                              (masternodeOutpoint1 mnv1) (masternodeOutpoint2 mnv1)))
             in case signed of
                  None \<Rightarrow> (True, (mnv1, st2, ev, Some (fst mnpair), vpMasternodesToBan))
                | Some sig2 \<Rightarrow>
                    let mnv2 = mnv1\<lparr> vchSig2 := sig2 \<rparr>;
                        ok =
                          (if IsSporkActive_NEW_SIGS env
                           then VerifyHash env (GetSignatureHash2 env mnv2 bh)
                                  (am_pubKeyMasternode (activeMasternode env)) sig2
                           else VerifyMessage env
                                  (am_pubKeyMasternode (activeMasternode env)) sig2
                                  (strMessage2 env (addr_v mnv2) (nonce mnv2) bh
                                     (masternodeOutpoint1 mnv2) (masternodeOutpoint2 mnv2)))
                    in if \<not> ok
                       then (True, (mnv2, st2, ev, Some (fst mnpair), vpMasternodesToBan))
                       else
                         let st3 = st2\<lparr> mWeAskedForVerification :=
                                       (mWeAskedForVerification st2)(node_addr pnode \<mapsto> mnv2),
                                     mapSeenMasternodeVerification :=
                                       (case mapSeenMasternodeVerification st2
                                               (GetHash_mnv env mnv2) of
                                          Some old \<Rightarrow> mapSeenMasternodeVerification st2
                                        | None \<Rightarrow>
                                            (mapSeenMasternodeVerification st2)
                                              (GetHash_mnv env mnv2 \<mapsto> mnv2)) \<rparr>
                         in (False, (mnv2, st3, ev @ [RelayVerification mnv2],
                                     Some (fst mnpair), vpMasternodesToBan)))"

fun verify_reply_loop ::
  "Env \<Rightarrow> CNode \<Rightarrow> uint256 \<Rightarrow> uint256 \<Rightarrow> string \<Rightarrow> (COutPoint \<times> CMasternode) list
     \<Rightarrow> reply_loop_state \<Rightarrow> bool \<times> reply_loop_state"
where
  "verify_reply_loop env pnode bh hash1 strMessage1' [] acc = (False, acc)"
| "verify_reply_loop env pnode bh hash1 strMessage1' (mnpair # rest)
       (mnv, st, ev, prealMasternode, vpMasternodesToBan) =
     (if addr (snd mnpair) = node_addr pnode then
        (if verifies_sig1 env hash1 strMessage1' mnv (snd mnpair) then
           (case verify_reply_found env pnode bh mnpair
                   (mnv, st, ev, prealMasternode, vpMasternodesToBan)
            of
              (True, acc') \<Rightarrow> (True, acc')
            | (False, acc') \<Rightarrow> verify_reply_loop env pnode bh hash1 strMessage1' rest acc')
         else verify_reply_loop env pnode bh hash1 strMessage1' rest
                (mnv, st, ev, prealMasternode, vpMasternodesToBan @ [fst mnpair]))
      else verify_reply_loop env pnode bh hash1 strMessage1' rest
             (mnv, st, ev, prealMasternode, vpMasternodesToBan))"

text \<open>The last loop of \<open>ProcessVerifyReply\<close>: the entries found to be fake are scored.\<close>

fun increase_all :: "Env \<Rightarrow> COutPoint list \<Rightarrow> CMasternodeMan \<Rightarrow> CMasternodeMan" where
  "increase_all env [] st = st"
| "increase_all env (k # ks) st =
     increase_all env ks
       (st\<lparr> mapMasternodes :=
             update_entry k (mn_IncreasePoSeBanScore env) (mapMasternodes st) \<rparr>)"

text \<open>\<open>ProcessVerifyReply\<close>: the manager after the call and the calls made.\<close>

definition ProcessVerifyReply ::
  "Env \<Rightarrow> CNode \<Rightarrow> CMasternodeVerification \<Rightarrow> CMasternodeMan
     \<Rightarrow> CMasternodeMan \<times> event list" where
  "ProcessVerifyReply env pnode mnv st =
     (if \<not> HasFulfilledRequest (node_addr pnode) (MNVERIFY @ ''-request'') st
      then (st, [Misbehaving (node_id pnode) 2])
      else
        let (asked, st0) = asked_for_verification (node_addr pnode) st
        in if nonce asked \<noteq> nonce mnv
           then (snd (IncreasePoSeBanScore_addr env (node_addr pnode) st0),
                 [Misbehaving (node_id pnode) 20])
           else if nBlockHeight_v asked \<noteq> nBlockHeight_v mnv
           then (snd (IncreasePoSeBanScore_addr env (node_addr pnode) st0),
                 [Misbehaving (node_id pnode) 20])
           else case GetBlockHash env (nBlockHeight_v mnv) of
             None \<Rightarrow> (st0, [])
           | Some bh \<Rightarrow>
               (let ev0 = (if HasFulfilledRequest (node_addr pnode) (MNVERIFY @ ''-done'') st0
                           then [Misbehaving (node_id pnode) 2] else []);
                    hash1 = GetSignatureHash1 env mnv bh;
                    strMessage1' = strMessage1 env (node_addr pnode) (nonce mnv) bh
                in case verify_reply_loop env pnode bh hash1 strMessage1'
                          (mapMasternodes st0) (mnv, st0, ev0, None, [])
                   of
                     (True, (mnv', st1, ev1, prealMasternode, vpMasternodesToBan)) \<Rightarrow>
                       (st1, ev1)
                   | (False, (mnv', st1, ev1, prealMasternode, vpMasternodesToBan)) \<Rightarrow>
                       (increase_all env vpMasternodesToBan st1,
                        ev1 @ (if prealMasternode = None
                               then [Misbehaving (node_id pnode) 40] else []))))"

text \<open>The last loop of \<open>ProcessVerifyBroadcast\<close>, over the registry.\<close>

definition increase_others ::
  "Env \<Rightarrow> CMasternodeVerification \<Rightarrow> (COutPoint \<times> CMasternode) list
     \<Rightarrow> (COutPoint \<times> CMasternode) list" where
  "increase_others env mnv m =
     map (\<lambda>mnpair.
            if addr (snd mnpair) \<noteq> addr_v mnv \<or> fst mnpair = masternodeOutpoint1 mnv
            then mnpair
            else (fst mnpair, mn_IncreasePoSeBanScore env (snd mnpair))) m"

text \<open>\<open>ProcessVerifyBroadcast\<close>: the manager after the call and the calls made.\<close>

definition ProcessVerifyBroadcast ::
  "Env \<Rightarrow> CNode \<Rightarrow> CMasternodeVerification \<Rightarrow> CMasternodeMan
     \<Rightarrow> CMasternodeMan \<times> event list" where
  "ProcessVerifyBroadcast env pnode mnv st =
     (if mapSeenMasternodeVerification st (GetHash_mnv env mnv) \<noteq> None then (st, [])
      else
        let st1 = st\<lparr> mapSeenMasternodeVerification :=
                       (mapSeenMasternodeVerification st)(GetHash_mnv env mnv \<mapsto> mnv) \<rparr>
        in if nBlockHeight_v mnv < nCachedBlockHeight st1 - MAX_POSE_BLOCKS env
           then (st1, [])
           else if masternodeOutpoint1 mnv = masternodeOutpoint2 mnv
           then (st1, [Misbehaving (node_id pnode) 100])
           else case GetBlockHash env (nBlockHeight_v mnv) of
             None \<Rightarrow> (st1, [])
           | Some bh \<Rightarrow>
               (case GetMasternodeRank env (masternodeOutpoint2 mnv) (nBlockHeight_v mnv)
                       (MIN_POSE_PROTO_VERSION env) st1
                of
                  (False, nRank) \<Rightarrow> (st1, [])
                | (True, nRank) \<Rightarrow>
                    if nRank > MAX_POSE_RANK env then (st1, [])
                    else case Find (masternodeOutpoint1 mnv) st1 of
                      None \<Rightarrow> (st1, [])
                    | Some pmn1 \<Rightarrow>
                        (case Find (masternodeOutpoint2 mnv) st1 of
                           None \<Rightarrow> (st1, [])
                         | Some pmn2 \<Rightarrow>
                             if addr pmn1 \<noteq> addr_v mnv
                             then (st1, [Misbehaving (node_id pnode) 20])
                             else if \<not> (if IsSporkActive_NEW_SIGS env
                                        then VerifyHash env (GetSignatureHash1 env mnv bh)
                                               (pubKeyMasternode pmn1) (vchSig1 mnv)
                                        else VerifyMessage env (pubKeyMasternode pmn1)
                                               (vchSig1 mnv)
                                               (strMessage1 env (addr_v mnv) (nonce mnv) bh))
                             then (st1, [])
                             else if \<not> (if IsSporkActive_NEW_SIGS env
                                        then VerifyHash env (GetSignatureHash2 env mnv bh)
                                               (pubKeyMasternode pmn2) (vchSig2 mnv)
                                        else VerifyMessage env (pubKeyMasternode pmn2)
                                               (vchSig2 mnv)
                                               (strMessage2 env (addr_v mnv) (nonce mnv) bh
                                                  (masternodeOutpoint1 mnv)
                                                  (masternodeOutpoint2 mnv)))
                             then (st1, [])
                             else
                               (let st2 = (if \<not> IsPoSeVerified env pmn1
                                           then st1\<lparr> mapMasternodes :=
                                                  update_entry (masternodeOutpoint1 mnv)
                                                    (mn_DecreasePoSeBanScore env)
                                                    (mapMasternodes st1) \<rparr>
                                           else st1)
                                in (st2\<lparr> mapMasternodes :=
                                          increase_others env mnv (mapMasternodes st2) \<rparr>,
                                    [RelayVerification mnv])))))"

section \<open>Duplicate-address sweep\<close>

text \<open>
  A \<open>CMasternode*\<close> into the registry is the key of the entry together with the entry as it
  is when the pointer is taken; two pointers are equal when their keys are. The vectors of
  \<open>CheckSameAddr\<close> are only read until the entries are banned after the scan.
\<close>

type_synonym pmn = "COutPoint \<times> CMasternode"

definition CompareByAddr :: "pmn \<Rightarrow> pmn \<Rightarrow> bool" where
  "CompareByAddr t1 t2 = (addr (snd t1) < addr (snd t2))"

definition CompareByPoSeBanScore :: "pmn \<Rightarrow> pmn \<Rightarrow> bool" where
  "CompareByPoSeBanScore t1 t2 = (nPoSeBanScore (snd t1) < nPoSeBanScore (snd t2))"

fun find_from :: "pmn list \<Rightarrow> pmn \<Rightarrow> int \<Rightarrow> bool \<times> int" where
  "find_from [] element i = (False, -1)"
| "find_from (x # xs) element i =
     (if fst x = fst element then (True, i) else find_from xs element (i + 1))"

definition findInVector :: "pmn list \<Rightarrow> pmn \<Rightarrow> bool \<times> int" where
  "findInVector vecOfElements element = find_from vecOfElements element 0"

text \<open>\<open>std::map::emplace\<close>: nothing happens when the key is present.\<close>

definition map_emplace :: "'k::linorder \<Rightarrow> 'v \<Rightarrow> ('k \<times> 'v) list \<Rightarrow> ('k \<times> 'v) list" where
  "map_emplace k v m = (if map_of m k \<noteq> None then m else map_assign k v m)"

text \<open>
  The first loop of \<open>CheckSameAddr\<close>: other entries at the local node's own address are
  banned at once, the local node's entry is skipped, the rest is collected.
\<close>

fun same_addr_collect ::
  "Env \<Rightarrow> (COutPoint \<times> CMasternode) list \<Rightarrow> (COutPoint \<times> CMasternode) list \<times> pmn list" where
  "same_addr_collect env [] = ([], [])"
| "same_addr_collect env (mnpair # rest) =
     (let (m', vec) = same_addr_collect env rest
      in if outpoint (snd mnpair) = am_outpoint (activeMasternode env)
         then (mnpair # m', vec)
         else if addr (snd mnpair) = am_service (activeMasternode env)
         then ((fst mnpair, mn_PoSeBan env (snd mnpair)) # m', vec)
         else (mnpair # m', mnpair # vec))"

text \<open>
  The scan over \<open>vSortedByAddr\<close>. Its state is \<open>mncount\<close>, \<open>pprevMasternode\<close>,
  \<open>pLowerPoSeBanScoreMasternode\<close>, \<open>vBan\<close> and \<open>mapAskForMnv\<close>.
\<close>

type_synonym scan_state =
  "int \<times> pmn option \<times> (int \<times> pmn option) \<times> pmn list \<times> (CNetAddr \<times> pmn option) list"

fun same_addr_scan :: "pmn list \<Rightarrow> pmn list \<Rightarrow> scan_state \<Rightarrow> scan_state" where
  "same_addr_scan vSortedByPoSe [] s = s"
| "same_addr_scan vSortedByPoSe (pmn # rest)
       (mncount, pprevMasternode, pLowerPoSeBanScoreMasternode, vBan, mapAskForMnv) =
     (if IsOutpointSpent (snd pmn) \<or> IsUpdateRequired (snd pmn) \<or> IsPoSeBanned (snd pmn)
      then same_addr_scan vSortedByPoSe rest
             (mncount, pprevMasternode, pLowerPoSeBanScoreMasternode, vBan, mapAskForMnv)
      else case pprevMasternode of
        None \<Rightarrow>
          same_addr_scan vSortedByPoSe rest
            (mncount + 1, Some pmn, (snd (findInVector vSortedByPoSe pmn), Some pmn), vBan,
             mapAskForMnv)
      | Some prev \<Rightarrow>
          (let ippmm = fst (addr (snd pmn));
               ippvMn = fst (addr (snd prev));
               pLPSBSMasternode = (snd (findInVector vSortedByPoSe pmn), Some pmn)
           in if ippmm = ippvMn then
                (if fst pLPSBSMasternode > fst pLowerPoSeBanScoreMasternode
                 then same_addr_scan vSortedByPoSe rest
                        (mncount + 1, Some pmn, pLowerPoSeBanScoreMasternode, vBan @ [pmn],
                         map_emplace ippmm (snd pLowerPoSeBanScoreMasternode) mapAskForMnv)
                 else same_addr_scan vSortedByPoSe rest
                        (mncount + 1, Some pmn, pLPSBSMasternode, vBan @ [prev],
                         map_emplace ippmm (snd pLPSBSMasternode) mapAskForMnv))
              else same_addr_scan vSortedByPoSe rest
                     (mncount + 1, Some pmn, pLPSBSMasternode, vBan, mapAskForMnv)))"

fun ban_all :: "Env \<Rightarrow> pmn list \<Rightarrow> CMasternodeMan \<Rightarrow> CMasternodeMan" where
  "ban_all env [] st = st"
| "ban_all env (pmn # rest) st =
     ban_all env rest
       (st\<lparr> mapMasternodes := update_entry (fst pmn) (mn_PoSeBan env) (mapMasternodes st) \<rparr>)"

definition MnCheckConnect :: "Env \<Rightarrow> CMasternode \<Rightarrow> bool" where
  "MnCheckConnect env mn =
     (let docheck = (fOkDual env \<or> (fOkIPv4 env \<and> IsIPv4 env (addr mn))
                       \<or> (fOkIPv6 env \<and> IsIPv6 env (addr mn)))
      in if \<not> docheck then docheck else ConnectSocket env (addr mn))"

fun ask_all ::
  "Env \<Rightarrow> (CNetAddr \<times> pmn option) list \<Rightarrow> CMasternodeMan \<Rightarrow> CMasternodeMan" where
  "ask_all env [] st = st"
| "ask_all env ((ip, None) # rest) st = ask_all env rest st"
| "ask_all env ((ip, Some pmn) # rest) st =
     (if MnCheckConnect env (snd pmn)
      then ask_all env rest
             (st\<lparr> mapWeShouldAskForVerification :=
                   (case mapWeShouldAskForVerification st (outpoint (snd pmn)) of
                      Some t \<Rightarrow> mapWeShouldAskForVerification st
                    | None \<Rightarrow> (mapWeShouldAskForVerification st)
                                (outpoint (snd pmn) \<mapsto> GetTime env)) \<rparr>)
      else ask_all env rest
             (st\<lparr> mapMasternodes :=
                   update_entry (fst pmn) (mn_IncreasePoSeBanScore env) (mapMasternodes st) \<rparr>))"

text \<open>
  \<open>CheckSameAddr\<close>. \<open>CompareByAddr\<close> and \<open>CompareByPoSeBanScore\<close> leave entries with equal
  address, respectively equal score, unordered, and \<open>std::sort\<close> is not stable, so the two
  calls of \<open>std::sort\<close> may return any sorted arrangement of such entries. What they return
  is therefore a parameter; the properties below hold for every pair of functions that sort
  (\<open>sorts_by\<close>).
\<close>

definition CheckSameAddr_with ::
  "(pmn list \<Rightarrow> pmn list) \<Rightarrow> (pmn list \<Rightarrow> pmn list) \<Rightarrow> Env \<Rightarrow> CMasternodeMan
     \<Rightarrow> CMasternodeMan" where
  "CheckSameAddr_with sort_by_addr sort_by_pose env st =
     (if \<not> IsSynced env \<or> mapMasternodes st = [] then st
      else
        let (m', vec) = same_addr_collect env (mapMasternodes st);
            vSortedByAddr = sort_by_addr vec;
            vSortedByPoSe = sort_by_pose vec;
            (mncount, pprevMasternode, pLowerPoSeBanScoreMasternode, vBan, mapAskForMnv) =
              same_addr_scan vSortedByPoSe vSortedByAddr (0, None, (-1, None), [], [])
        in ask_all env mapAskForMnv (ban_all env vBan (st\<lparr> mapMasternodes := m' \<rparr>)))"

text \<open>What a call of \<open>std::sort\<close> with comparator \<open>cmp\<close> may return for the vector \<open>v\<close>.\<close>

definition sorts_by :: "('a \<Rightarrow> 'a \<Rightarrow> bool) \<Rightarrow> ('a list \<Rightarrow> 'a list) \<Rightarrow> bool" where
  "sorts_by cmp f = (\<forall>v. mset (f v) = mset v \<and> sorted_wrt (\<lambda>a b. \<not> cmp b a) (f v))"




section \<open>Announcements and the housekeeping tick\<close>

text \<open>
  Modelled from the spec: \<open>IsMnbRecoveryRequested\<close> is defined in masternodeman.h; by section
  4.6 a broadcast hash is under recovery when \<open>mnb_recovery_requests\<close> holds it.
\<close>

definition IsMnbRecoveryRequested :: "uint256 \<Rightarrow> CMasternodeMan \<Rightarrow> bool" where
  "IsMnbRecoveryRequested hash st = (mMnbRecoveryRequests st hash \<noteq> None)"

text \<open>\<open>std::set::insert\<close> on a set kept as a sorted list without repetition.\<close>

definition set_insert :: "'a::linorder \<Rightarrow> 'a list \<Rightarrow> 'a list" where
  "set_insert x xs = (if x \<in> set xs then xs else insort x xs)"

text \<open>
  \<open>CheckMnbAndUpdateMasternodeList\<close> returns its flag, \<open>nDos\<close>, the manager and the calls
  made. The first definition is the branch taken for a broadcast that is in the seen cache
  and is not tagged as recovery, the second the rest of the function. The checks of
  \<open>CMasternodeBroadcast\<close> take and return \<open>nDos\<close>; what \<open>Update\<close> does to the entry it is
  given is its third result, and what it relays is not recorded.
\<close>

definition CheckMnb_seen ::
  "Env \<Rightarrow> CNode option \<Rightarrow> CMasternodeBroadcast \<Rightarrow> uint256 \<Rightarrow> int \<times> CMasternodeBroadcast
     \<Rightarrow> CMasternodeMan \<Rightarrow> bool \<times> int \<times> CMasternodeMan \<times> event list" where
  "CheckMnb_seen env pfrom mnb hash seen st =
     (let bump = (GetTime env - fst seen
                    > MASTERNODE_NEW_START_REQUIRED_SECONDS env
                        - MASTERNODE_MIN_MNP_SECONDS env * 2);
          st1 = (if bump
                 then st\<lparr> mapSeenMasternodeBroadcast :=
                        (mapSeenMasternodeBroadcast st)(hash \<mapsto> (GetTime env, snd seen)) \<rparr>
                 else st);
          ev = (if bump then [BumpAssetLastTime] else []);
          st2 =
            (case pfrom of
               None \<Rightarrow> st1
             | Some pnode \<Rightarrow>
                 (case mMnbRecoveryRequests st1 hash of
                    None \<Rightarrow> st1
                  | Some req \<Rightarrow>
                      if GetTime env < fst req \<and> node_addr pnode \<in> set (snd req) then
                        (let st3 = st1\<lparr> mMnbRecoveryRequests :=
                                      (mMnbRecoveryRequests st1)
                                        (hash \<mapsto> (fst req, removeAll (node_addr pnode) (snd req))) \<rparr>
                         in if sigTime_p (lastPing mnb) > sigTime_p (lastPing (snd seen))
                               \<and> IsValidStateForAutoStart env
                                    (nActiveState (Check env (mn_of_mnb mnb)))
                            then st3\<lparr> mMnbRecoveryGoodReplies :=
                                   map_assign hash
                                     ((case map_of (mMnbRecoveryGoodReplies st3) hash of
                                         None \<Rightarrow> [] | Some bs \<Rightarrow> bs) @ [mnb])
                                     (mMnbRecoveryGoodReplies st3) \<rparr>
                            else st3)
                      else st1))
      in (True, 0, st2, ev))"

definition CheckMnb_new ::
  "Env \<Rightarrow> CMasternodeBroadcast \<Rightarrow> uint256 \<Rightarrow> CMasternodeMan
     \<Rightarrow> bool \<times> int \<times> CMasternodeMan \<times> event list" where
  "CheckMnb_new env mnb hash st =
     (let st1 = (case mapSeenMasternodeBroadcast st hash of
                   Some seen \<Rightarrow> st
                 | None \<Rightarrow> st\<lparr> mapSeenMasternodeBroadcast :=
                             (mapSeenMasternodeBroadcast st)(hash \<mapsto> (GetTime env, mnb)) \<rparr>)
      in case SimpleCheck env mnb 0 of
           (False, nDos) \<Rightarrow> (False, nDos, st1, [])
         | (True, nDos) \<Rightarrow>
             (case Find (outpoint mnb) st1 of
                Some pmn \<Rightarrow>
                  (let hashOld = GetHash_mnb env (mnb_of_mn pmn);
                       st2 = (case mapSeenMasternodeBroadcast st1 hashOld of
                                Some seen \<Rightarrow> st1
                              | None \<Rightarrow> st1\<lparr> mapSeenMasternodeBroadcast :=
                                          (mapSeenMasternodeBroadcast st1)
                                            (hashOld \<mapsto> (0, DefaultBroadcast env)) \<rparr>);
                       mnbOld = (case mapSeenMasternodeBroadcast st1 hashOld of
                                   Some seen \<Rightarrow> snd seen
                                 | None \<Rightarrow> DefaultBroadcast env)
                   in case Update env mnb pmn nDos of
                        (False, nDos', pmn') \<Rightarrow>
                          (False, nDos',
                           st2\<lparr> mapMasternodes :=
                                 update_entry (outpoint mnb) (\<lambda>old. pmn') (mapMasternodes st2) \<rparr>,
                           [])
                      | (True, nDos', pmn') \<Rightarrow>
                          (let st3 = st2\<lparr> mapMasternodes :=
                                        update_entry (outpoint mnb) (\<lambda>old. pmn')
                                          (mapMasternodes st2) \<rparr>
                           in (True, nDos',
                               (if hash \<noteq> GetHash_mnb env mnbOld
                                then st3\<lparr> mapSeenMasternodeBroadcast :=
                                       (mapSeenMasternodeBroadcast st3)
                                         (GetHash_mnb env mnbOld := None) \<rparr>
                                else st3),
                               [])))
              | None \<Rightarrow>
                  (case CheckOutpoint env mnb nDos of
                     (False, nDos1) \<Rightarrow> (False, nDos1, st1, [])
                   | (True, nDos1) \<Rightarrow>
                       (case CheckAddr env mnb nDos1 of
                          (False, nDos2) \<Rightarrow> (False, nDos2, st1, [])
                        | (True, nDos2) \<Rightarrow>
                            (case Add (mn_of_mnb mnb) st1 of
                               (False, st2) \<Rightarrow> (False, nDos2, st1, [])
                             | (True, st2) \<Rightarrow>
                                 if fMasternodeMode env
                                    \<and> pubKeyMasternode mnb
                                        = am_pubKeyMasternode (activeMasternode env)
                                 then
                                   (if nProtocolVersion mnb = PROTOCOL_VERSION env
                                    then (True, nDos2, st2,
                                          [BumpAssetLastTime, ManageState,
                                           RelayBroadcast
                                             (mnb\<lparr> nPoSeBanScore :=
                                                    - MASTERNODE_POSE_BAN_MAX_SCORE env \<rparr>)])
                                    else (False, nDos2, st2, [BumpAssetLastTime]))
                                 else (True, nDos2, st2,
                                       [BumpAssetLastTime, RelayBroadcast mnb]))))))"

definition CheckMnbAndUpdateMasternodeList ::
  "Env \<Rightarrow> CNode option \<Rightarrow> CMasternodeBroadcast \<Rightarrow> CMasternodeMan
     \<Rightarrow> bool \<times> int \<times> CMasternodeMan \<times> event list" where
  "CheckMnbAndUpdateMasternodeList env pfrom mnb st =
     (let hash = GetHash_mnb env mnb
      in case mapSeenMasternodeBroadcast st hash of
           Some seen \<Rightarrow>
             if \<not> fRecovery mnb then CheckMnb_seen env pfrom mnb hash seen st
             else CheckMnb_new env mnb hash st
         | None \<Rightarrow> CheckMnb_new env mnb hash st)"

text \<open>\<open>Check\<close>: every entry checks itself.\<close>

definition Check_all :: "Env \<Rightarrow> CMasternodeMan \<Rightarrow> CMasternodeMan" where
  "Check_all env st =
     st\<lparr> mapMasternodes := map (\<lambda>mnpair. (fst mnpair, Check env (snd mnpair))) (mapMasternodes st) \<rparr>"

text \<open>
  The inner loop of \<open>CheckAndRemove\<close> that picks the peers to ask for the broadcast \<open>hash\<close> of
  the entry under \<open>k\<close>: the manager, \<open>setRequested\<close> and \<open>fAskedForMnbRecovery\<close>.
\<close>

fun ask_ranks ::
  "Env \<Rightarrow> COutPoint \<Rightarrow> uint256 \<Rightarrow> (int \<times> CMasternode) list \<Rightarrow> CMasternodeMan \<Rightarrow> CService list
     \<Rightarrow> bool \<Rightarrow> CMasternodeMan \<times> CService list \<times> bool" where
  "ask_ranks env k hash [] st setRequested fAskedForMnbRecovery =
     (st, setRequested, fAskedForMnbRecovery)"
| "ask_ranks env k hash (r # rest) st setRequested fAskedForMnbRecovery =
     (if \<not> length setRequested < MNB_RECOVERY_QUORUM_TOTAL env
      then (st, setRequested, fAskedForMnbRecovery)
      else if (case mWeAskedForMasternodeListEntry st k of
                 None \<Rightarrow> False
               | Some asked \<Rightarrow> map_of asked (addr (snd r)) \<noteq> None)
      then ask_ranks env k hash rest st setRequested fAskedForMnbRecovery
      else ask_ranks env k hash rest
             (st\<lparr> listScheduledMnbRequestConnections :=
                   listScheduledMnbRequestConnections st @ [(addr (snd r), hash)] \<rparr>)
             (set_insert (addr (snd r)) setRequested) True)"

text \<open>
  The loop of \<open>CheckAndRemove\<close> over the registry. It carries the manager,
  \<open>nAskForMnbRecovery\<close>, \<open>vecMasternodeRanks\<close> and the number of random heights drawn so far;
  the list is the registry as it is when the loop starts, and an entry is only ever erased
  when the loop is at it.
\<close>

type_synonym remove_loop_state = "CMasternodeMan \<times> int \<times> (int \<times> CMasternode) list \<times> nat"

fun remove_loop ::
  "Env \<Rightarrow> (COutPoint \<times> CMasternode) list \<Rightarrow> remove_loop_state \<Rightarrow> remove_loop_state" where
  "remove_loop env [] s = s"
| "remove_loop env (it # rest) (st, nAskForMnbRecovery, vecMasternodeRanks, nDraws) =
     (let hash = GetHash_mnb env (mnb_of_mn (snd it))
      in if IsOutpointSpent (snd it) \<or> IsUpdateRequired (snd it) \<or> IsPoSeBanned (snd it)
         then remove_loop env rest
                (remove_entry env (fst it) (snd it) st, nAskForMnbRecovery,
                 vecMasternodeRanks, nDraws)
         else if nAskForMnbRecovery > 0 \<and> IsSynced env \<and> IsNewStartRequired (snd it)
                 \<and> \<not> IsMnbRecoveryRequested hash st \<and> \<not> IsArgSet_connect env
         then
           (let ranks = (if vecMasternodeRanks = []
                         then snd (GetMasternodeRanks env
                                     (GetRandInt env nDraws (nCachedBlockHeight st))
                                     (GetMasternodeRanks_nMinProtocol env) st)
                         else vecMasternodeRanks);
                nDraws' = (if vecMasternodeRanks = [] then Suc nDraws else nDraws);
                (st1, setRequested, fAskedForMnbRecovery) =
                  ask_ranks env (fst it) hash ranks st [] False;
                st2 = st1\<lparr> mMnbRecoveryRequests :=
                            (mMnbRecoveryRequests st1)
                              (hash \<mapsto> (GetTime env + MNB_RECOVERY_WAIT_SECONDS env,
                                         setRequested)) \<rparr>
            in remove_loop env rest
                 (st2,
                  (if fAskedForMnbRecovery then nAskForMnbRecovery - 1
                   else nAskForMnbRecovery),
                  ranks, nDraws'))
         else remove_loop env rest (st, nAskForMnbRecovery, vecMasternodeRanks, nDraws))"

text \<open>
  The loop over \<open>mMnbRecoveryGoodReplies\<close>, one step for the replies collected under one
  hash. Reading the deadline with \<open>operator[]\<close> creates a request with deadline 0 where
  there is none.
\<close>

definition process_good_replies_step ::
  "Env \<Rightarrow> uint256 \<times> CMasternodeBroadcast list \<Rightarrow> CMasternodeMan \<times> event list
     \<Rightarrow> CMasternodeMan \<times> event list" where
  "process_good_replies_step env itMnbReplies acc =
     (case acc of (st, ev) \<Rightarrow>
        let st0 = (case mMnbRecoveryRequests st (fst itMnbReplies) of
                     Some req \<Rightarrow> st
                   | None \<Rightarrow> st\<lparr> mMnbRecoveryRequests :=
                               (mMnbRecoveryRequests st)(fst itMnbReplies \<mapsto> (0, [])) \<rparr>);
            deadline = (case mMnbRecoveryRequests st (fst itMnbReplies) of
                          Some req \<Rightarrow> fst req | None \<Rightarrow> 0)
        in if deadline < GetTime env then
             (let (st1, ev1) =
                    (if length (snd itMnbReplies) \<ge> MNB_RECOVERY_QUORUM_REQUIRED env
                     then (case snd itMnbReplies of
                             [] \<Rightarrow> (st0, [])
                           | mnb0 # others \<Rightarrow>
                               (case CheckMnbAndUpdateMasternodeList env None
                                       (mnb0\<lparr> fRecovery := True \<rparr>) st0
                                of (ok, nDos, st', ev') \<Rightarrow> (st', ev')))
                     else (st0, []))
              in (st1\<lparr> mMnbRecoveryGoodReplies :=
                        map_erase (fst itMnbReplies) (mMnbRecoveryGoodReplies st1) \<rparr>,
                  ev @ ev1))
           else (st0, ev))"

definition process_good_replies :: "Env \<Rightarrow> CMasternodeMan \<Rightarrow> CMasternodeMan \<times> event list" where
  "process_good_replies env st =
     foldl (\<lambda>acc itMnbReplies. process_good_replies_step env itMnbReplies acc) (st, [])
       (mMnbRecoveryGoodReplies st)"

text \<open>The expiry sweeps of the second block of \<open>CheckAndRemove\<close>.\<close>

definition erase_if :: "('v \<Rightarrow> bool) \<Rightarrow> ('k \<rightharpoonup> 'v) \<Rightarrow> ('k \<rightharpoonup> 'v)" where
  "erase_if expired m =
     (\<lambda>k. case m k of None \<Rightarrow> None | Some v \<Rightarrow> if expired v then None else Some v)"

definition sweep_asked_entries ::
  "Env \<Rightarrow> (COutPoint \<rightharpoonup> (CService \<times> int) list) \<Rightarrow> (COutPoint \<rightharpoonup> (CService \<times> int) list)" where
  "sweep_asked_entries env m =
     (\<lambda>k. case m k of
             None \<Rightarrow> None
           | Some asked \<Rightarrow>
               (let asked' = filter (\<lambda>it3. \<not> snd it3 < GetTime env) asked
                in if asked' = [] then None else Some asked'))"

definition expiry_sweeps :: "Env \<Rightarrow> CMasternodeMan \<Rightarrow> CMasternodeMan" where
  "expiry_sweeps env st =
     st\<lparr> mMnbRecoveryRequests :=
           erase_if (\<lambda>req. GetTime env - fst req > MNB_RECOVERY_RETRY_SECONDS env)
             (mMnbRecoveryRequests st),
         mAskedUsForMasternodeList :=
           erase_if (\<lambda>t. t < GetTime env) (mAskedUsForMasternodeList st),
         mWeAskedForMasternodeList :=
           erase_if (\<lambda>t. t < GetTime env) (mWeAskedForMasternodeList st),
         mWeAskedForMasternodeListEntry :=
           sweep_asked_entries env (mWeAskedForMasternodeListEntry st),
         mWeAskedForVerification :=
           erase_if (\<lambda>mnv. nBlockHeight_v mnv < nCachedBlockHeight st - MAX_POSE_BLOCKS env)
             (mWeAskedForVerification st),
         mapSeenMasternodePing := erase_if (IsExpired env) (mapSeenMasternodePing st),
         mapSeenMasternodeVerification :=
           erase_if (\<lambda>mnv. nBlockHeight_v mnv < nCachedBlockHeight st - MAX_POSE_BLOCKS env)
             (mapSeenMasternodeVerification st) \<rparr>"

definition NotifyMasternodeUpdates :: "CMasternodeMan \<Rightarrow> CMasternodeMan \<times> event list" where
  "NotifyMasternodeUpdates st =
     (st\<lparr> fMasternodesAdded := False, fMasternodesRemoved := False \<rparr>,
      (if fMasternodesAdded st then [CheckMasternodeOrphans] else [])
        @ (if fMasternodesRemoved st then [UpdateCachesAndClean] else []))"

text \<open>The first block of \<open>CheckAndRemove\<close> up to the end of the loop over the registry.\<close>

definition removal_phase :: "Env \<Rightarrow> CMasternodeMan \<Rightarrow> CMasternodeMan" where
  "removal_phase env st =
     (let st0 = Check_all env st
      in fst (remove_loop env (mapMasternodes st0)
                (st0, MNB_RECOVERY_MAX_ASK_ENTRIES env, [], 0)))"

definition CheckAndRemove :: "Env \<Rightarrow> CMasternodeMan \<Rightarrow> CMasternodeMan \<times> event list" where
  "CheckAndRemove env st =
     (if \<not> IsMasternodeListSynced env then (st, [])
      else
        let st1 = removal_phase env st;
            (st2, ev) = process_good_replies env st1;
            st3 = expiry_sweeps env st2
        in if fMasternodesRemoved st3
           then (case NotifyMasternodeUpdates st3 of (st4, ev') \<Rightarrow> (st4, ev @ ev'))
           else (st3, ev))"

text \<open>The states in which the housekeeping tick evicts an entry.\<close>

definition removable :: "CMasternode \<Rightarrow> bool" where
  "removable mn = (IsOutpointSpent mn \<or> IsUpdateRequired mn \<or> IsPoSeBanned mn)"

text \<open>The keys by which the two comparators order their pairs.\<close>

definition score_key :: "uint256 \<times> CMasternode \<Rightarrow> uint256 \<times> COutPoint" where
  "score_key t = (fst t, outpoint (snd t))"

definition last_paid_key :: "int \<times> CMasternode \<Rightarrow> int \<times> COutPoint" where
  "last_paid_key t = (fst t, outpoint (snd t))"

text \<open>
  What \<open>GetNextMasternodeInQueueForPayment\<close> returns once the winners list is synced and
  the flag \<open>fFilterSigTime\<close> is the one the candidates are finally collected with.
\<close>

definition payment_result ::
  "Env \<Rightarrow> int \<Rightarrow> bool \<Rightarrow> CMasternodeMan \<Rightarrow> bool \<times> int \<times> CMasternode option" where
  "payment_result env nHeight fFilterSigTime st =
     (let nMnCount = CountMasternodes env (-1) st;
          vecMasternodeLastPaid =
            last_paid_vec env nHeight fFilterSigTime nMnCount (mapMasternodes st)
      in case GetBlockHash env (nHeight - 101) of
           None \<Rightarrow> (False, int (length vecMasternodeLastPaid), None)
         | Some bh \<Rightarrow>
             (let pBestMasternode =
                    best_of_tenth env bh (nMnCount div 10)
                      (std_sort CompareLastPaidBlock vecMasternodeLastPaid) 0 0 None
              in (pBestMasternode \<noteq> None, int (length vecMasternodeLastPaid),
                  pBestMasternode)))"

text \<open>
  The representation invariant of the registry: keys ascending without repetition, and
  every entry stored under its own outpoint.
\<close>

definition registry_wf :: "(COutPoint \<times> CMasternode) list \<Rightarrow> bool" where
  "registry_wf m =
     (sorted (map fst m) \<and> distinct (map fst m) \<and> (\<forall>p \<in> set m. outpoint (snd p) = fst p))"

section \<open>Concrete scenarios\<close>

definition ex_ping :: "COutPoint \<Rightarrow> int \<Rightarrow> CMasternodePing" where
  "ex_ping op t =
     \<lparr> masternodeOutpoint = op, blockHash_p = 0, sigTime_p = t,
       fSentinelIsCurrent = False, nDaemonVersion = 0 \<rparr>"

definition ex_entry :: "uint256 \<Rightarrow> CNetAddr \<Rightarrow> CMasternode" where
  "ex_entry h ip =
     \<lparr> outpoint = (h, 0), addr = (ip, 9999),
       pubKeyCollateralAddress = [], pubKeyMasternode = [],
       sigTime = 0, nProtocolVersion = 70210, lastPing = ex_ping (h, 0) 0,
       nBlockLastPaid = 0, nPoSeBanScore = 0, nActiveState = MASTERNODE_ENABLED,
       fAllowMixingTx = True, nLastDsq = 0 \<rparr>"

definition ex_env :: Env where
  "ex_env =
     \<lparr> IsBlockchainSynced = True,
       IsMasternodeListSynced = True,
       IsWinnersListSynced = True,
       IsSynced = True,
       GetBlockHash = (\<lambda>h. if 0 \<le> h then Some 0 else None),
       GetTime = 1000,
       GetRandInt = (\<lambda>i n. 0),
       IsArgSet_connect = False,
       GetMinMasternodePaymentsProto = 70208,
       IsScheduled = (\<lambda>mn h. False),
       GetUTXOConfirmations = (\<lambda>op. 1000),
       SigTimeTooNew = (\<lambda>mn n. False),
       CalculateScore = (\<lambda>mn h. fst (outpoint mn) + h),
       IsValidForPayment = (\<lambda>mn. nActiveState mn = MASTERNODE_ENABLED),
       IsPoSeVerified = (\<lambda>mn. False),
       Check = (\<lambda>mn. mn),
       IsValidStateForAutoStart = (\<lambda>s. s = MASTERNODE_ENABLED \<or> s = MASTERNODE_PRE_ENABLED),
       IsExpired = (\<lambda>mnp. False),
       GetHash_mnb = (\<lambda>mnb. fst (outpoint mnb) + word_of_int (sigTime mnb)),
       SimpleCheck = (\<lambda>mnb nDos. (True, 0)),
       Update = (\<lambda>mnb pmn nDos. (True, 0, pmn\<lparr> sigTime := sigTime mnb, lastPing := lastPing mnb, nActiveState := MASTERNODE_PRE_ENABLED \<rparr>)),
       CheckOutpoint = (\<lambda>mnb nDos. (True, nDos)),
       CheckAddr = (\<lambda>mnb nDos. (True, nDos)),
       DefaultBroadcast = mnb_of_mn (ex_entry 0 0),
       GetMasternodeRanks_nMinProtocol = 0,
       GetHash_mnv = (\<lambda>mnv. word_of_int (nonce mnv)),
       GetSignatureHash1 = (\<lambda>mnv bh. bh + word_of_int (nonce mnv)),
       GetSignatureHash2 = (\<lambda>mnv bh. bh + word_of_int (nonce mnv) + 1),
       IsSporkActive_NEW_SIGS = True,
       VerifyHash = (\<lambda>h pk sig. sig = pk),
       VerifyMessage = (\<lambda>pk sig msg. sig = pk),
       SignHash = (\<lambda>h. Some [7]),
       SignMessage = (\<lambda>msg. Some [7]),
       strMessage1 = (\<lambda>a n bh. []),
       strMessage2 = (\<lambda>a n bh o1 o2. []),
       ConnectSocket = (\<lambda>a. True),
       IsIPv4 = (\<lambda>a. True),
       IsIPv6 = (\<lambda>a. False),
       fOkDual = False,
       fOkIPv4 = True,
       fOkIPv6 = False,
       fMasternodeMode = True,
       activeMasternode = \<lparr> am_outpoint = (7, 0), am_service = (77, 9999), am_pubKeyMasternode = [7] \<rparr>,
       MASTERNODE_POSE_BAN_MAX_SCORE = 5,
       MNB_RECOVERY_MAX_ASK_ENTRIES = 10,
       MNB_RECOVERY_QUORUM_TOTAL = 10,
       MNB_RECOVERY_QUORUM_REQUIRED = 2,
       MNB_RECOVERY_WAIT_SECONDS = 60,
       MNB_RECOVERY_RETRY_SECONDS = 10800,
       MAX_POSE_BLOCKS = 10,
       MAX_POSE_RANK = 10,
       MIN_POSE_PROTO_VERSION = 70203,
       MASTERNODE_NEW_START_REQUIRED_SECONDS = 10800,
       MASTERNODE_MIN_MNP_SECONDS = 600,
       PROTOCOL_VERSION = 70210 \<rparr>"

text \<open>A registry holding the local node's own entry and one other entry.\<close>

definition ex_two :: CMasternodeMan where
  "ex_two = snd (Add (ex_entry 7 77) (snd (Add (ex_entry 1 11) (CMasternodeMan_init 100))))"

text \<open>
  A registry of one hundred entries, paid at blocks 1 to 100, of which the nine paid longest
  ago are enabled and the others expired.
\<close>

definition ex_paid :: "nat \<Rightarrow> CMasternode" where
  "ex_paid i =
     (ex_entry (of_nat i) (of_nat i))
       \<lparr> nBlockLastPaid := int i,
         nActiveState := (if i \<le> 9 then MASTERNODE_ENABLED else MASTERNODE_EXPIRED) \<rparr>"

definition ex_hundred :: CMasternodeMan where
  "ex_hundred =
     (CMasternodeMan_init 1000)
       \<lparr> mapMasternodes := map (\<lambda>i. ((of_nat i, 0), ex_paid i)) [1..<101] \<rparr>"

text \<open>
  The environment with scores that fall as the outpoint rises, and the one in which every entry
  has the same score.
\<close>

definition ex_env_falling :: Env where
  "ex_env_falling = ex_env\<lparr> CalculateScore := (\<lambda>mn h. 100 - fst (outpoint mn)) \<rparr>"

definition ex_env_flat :: Env where
  "ex_env_flat = ex_env\<lparr> CalculateScore := (\<lambda>mn h. 5) \<rparr>"

text \<open>
  A verification exchange with the peer at the address of an entry whose ban score is 2, and
  a broadcast in which that entry vouches for itself.
\<close>

definition ex_node :: CNode where
  "ex_node = \<lparr> node_id = 5, node_addr = (11, 9999) \<rparr>"

definition ex_request :: CMasternodeVerification where
  "ex_request =
     \<lparr> addr_v = (11, 9999), nonce = 42, nBlockHeight_v = 99, vchSig1 = [], vchSig2 = [],
       masternodeOutpoint1 = COutPoint_null, masternodeOutpoint2 = COutPoint_null \<rparr>"

definition ex_reply :: CMasternodeVerification where
  "ex_reply = ex_request\<lparr> vchSig1 := [3] \<rparr>"

definition ex_target :: CMasternode where
  "ex_target = (ex_entry 1 11)\<lparr> pubKeyMasternode := [3], nPoSeBanScore := 2 \<rparr>"

definition ex_asked :: CMasternodeMan where
  "ex_asked =
     (CMasternodeMan_init 100)
       \<lparr> mapMasternodes := [((1, 0), ex_target), ((7, 0), ex_entry 7 77)],
         mWeAskedForVerification := [(11, 9999) \<mapsto> ex_request],
         netfulfilled := [((11, 9999), MNVERIFY @ ''-request'')] \<rparr>"

definition ex_self_mnv :: CMasternodeVerification where
  "ex_self_mnv =
     \<lparr> addr_v = (11, 9999), nonce = 43, nBlockHeight_v = 99, vchSig1 = [3], vchSig2 = [3],
       masternodeOutpoint1 = (1, 0), masternodeOutpoint2 = (1, 0) \<rparr>"

text \<open>
  Registries with entries at one network address: two entries at the local node's own
  service address, and three entries at another address with ban scores 1, 2 and 0.
\<close>

definition ex_at :: "uint256 \<Rightarrow> CNetAddr \<Rightarrow> 16 word \<Rightarrow> int \<Rightarrow> CMasternode" where
  "ex_at h ip port' score = (ex_entry h ip)\<lparr> addr := (ip, port'), nPoSeBanScore := score \<rparr>"



definition ex_triple :: CMasternodeMan where
  "ex_triple =
     (CMasternodeMan_init 100)
       \<lparr> mapMasternodes :=
           [((1, 0), ex_at 1 11 1 1), ((2, 0), ex_at 2 11 2 2), ((3, 0), ex_at 3 11 3 0)] \<rparr>"

text \<open>
  An announcement whose collateral check fails, a registry with a banned entry whose broadcast
  is in the seen cache, and a recovery of an entry for which two replies were collected, the
  second with the later ping.
\<close>

definition ex_env_reject :: Env where
  "ex_env_reject = ex_env\<lparr> CheckOutpoint := (\<lambda>mnb nDos. (False, 0)) \<rparr>"

definition ex_rejected :: CMasternodeMan where
  "ex_rejected =
     fst (snd (snd (CheckMnbAndUpdateMasternodeList ex_env_reject (Some ex_node)
                      (mnb_of_mn (ex_entry 9 99)) (CMasternodeMan_init 100))))"

definition ex_banned :: CMasternodeMan where
  "ex_banned =
     (CMasternodeMan_init 100)
       \<lparr> mapMasternodes :=
           [((1, 0), (ex_entry 1 11)\<lparr> nActiveState := MASTERNODE_POSE_BAN \<rparr>),
            ((7, 0), ex_entry 7 77)],
         mapSeenMasternodeBroadcast :=
           [1 \<mapsto> (500, mnb_of_mn ((ex_entry 1 11)\<lparr> nActiveState := MASTERNODE_POSE_BAN \<rparr>))] \<rparr>"

definition ex_stale :: CMasternode where
  "ex_stale =
     (ex_entry 1 11)\<lparr> sigTime := 100, lastPing := ex_ping (1, 0) 400,
                      nActiveState := MASTERNODE_NEW_START_REQUIRED \<rparr>"

definition ex_good_reply :: "int \<Rightarrow> CMasternodeBroadcast" where
  "ex_good_reply t = mnb_of_mn (ex_stale\<lparr> lastPing := ex_ping (1, 0) t \<rparr>)"

definition ex_recover :: CMasternodeMan where
  "ex_recover =
     (CMasternodeMan_init 100)
       \<lparr> mapMasternodes := [((1, 0), ex_stale)],
         mapSeenMasternodeBroadcast := [101 \<mapsto> (500, mnb_of_mn ex_stale)],
         mMnbRecoveryRequests := [101 \<mapsto> (900, [])],
         mMnbRecoveryGoodReplies := [(101, [ex_good_reply 500, ex_good_reply 600])] \<rparr>"

section \<open>Properties of the registry store\<close>

lemma map_of_map_assign: "map_of (map_assign k v m) = (map_of m)(k \<mapsto> v)"
  by (induction m) (auto simp: fun_eq_iff)

lemma fst_map_assign: "fst ` set (map_assign k v m) = insert k (fst ` set m)"
  by (simp add: dom_map_of_conv_image_fst[symmetric] map_of_map_assign)

lemma sorted_map_assign:
  "sorted (map fst m) \<Longrightarrow> distinct (map fst m) \<Longrightarrow>
   sorted (map fst (map_assign k v m)) \<and> distinct (map fst (map_assign k v m))"
proof (induction m)
  case Nil then show ?case by simp
next
  case (Cons p m)
  then show ?case using fst_map_assign[of k v m] by (cases p) (auto simp: less_le)
qed

lemma set_map_assign: "set (map_assign k v m) \<subseteq> insert (k, v) (set m)"
  by (induction m) (auto split: if_splits)

lemma set_map_assign_fresh:
  "k \<notin> fst ` set m \<Longrightarrow> set (map_assign k v m) = insert (k, v) (set m)"
  by (induction m) (auto split: if_splits)

lemma registry_wf_assign:
  "registry_wf m \<Longrightarrow> registry_wf (map_assign (outpoint mn) mn m)"
  using sorted_map_assign[of m "outpoint mn" mn] set_map_assign[of "outpoint mn" mn m]
  unfolding registry_wf_def by auto

lemma registry_wf_erase: "registry_wf m \<Longrightarrow> registry_wf (map_erase k m)"
  unfolding registry_wf_def map_erase_def
  by (auto simp: sorted_filter distinct_map_filter)

lemma registry_wf_apply_op:
  "registry_wf (mapMasternodes st) \<Longrightarrow> registry_wf (mapMasternodes (apply_op env st op))"
  by (cases op)
     (auto simp: apply_op_def Add_def remove_entry_def Clear_def registry_wf_assign
        registry_wf_erase registry_wf_def[of "[]"] split: option.splits)

lemma registry_wf_run_ops:
  "registry_wf (mapMasternodes st) \<Longrightarrow> registry_wf (mapMasternodes (run_ops env ops st))"
  unfolding run_ops_def
  by (induction ops arbitrary: st) (auto simp: registry_wf_apply_op)

lemma registry_wf_distinct_outpoints:
  assumes "registry_wf m"
  shows "distinct (map (\<lambda>p. outpoint (snd p)) m)"
proof -
  have "map (\<lambda>p. outpoint (snd p)) m = map fst m"
    using assms by (auto simp: registry_wf_def)
  moreover have "distinct (map fst m)"
    using assms by (simp add: registry_wf_def)
  ultimately show ?thesis by (simp only:)
qed

lemma HasAddr_loop_iff: "HasAddr_loop a m \<longleftrightarrow> (\<exists>p \<in> set m. addr (snd p) = a)"
  by (induction m) auto

text \<open>
  Claim C1. \<open>Add\<close> returns false and leaves the whole manager unchanged when an entry with the
  same outpoint or the same address is present; otherwise it returns true, the new entry is
  found under its outpoint, every other lookup is as before, and the registry gains exactly
  that entry. Starting from the constructor's empty registry, after any sequence of
  insertions, removals and clears the outpoints of the stored entries are pairwise distinct.
\<close>

theorem Add_keeps_outpoints_unique:
  "(Has (outpoint mn) st \<or> HasAddr (addr mn) st \<longrightarrow> Add mn st = (False, st)) \<and>
   (\<not> Has (outpoint mn) st \<and> \<not> HasAddr (addr mn) st \<longrightarrow>
      fst (Add mn st) \<and>
      Find (outpoint mn) (snd (Add mn st)) = Some mn \<and>
      (\<forall>k. k \<noteq> outpoint mn \<longrightarrow> Find k (snd (Add mn st)) = Find k st) \<and>
      set (mapMasternodes (snd (Add mn st)))
        = insert (outpoint mn, mn) (set (mapMasternodes st))) \<and>
   distinct (map (\<lambda>p. outpoint (snd p))
      (mapMasternodes (run_ops env ops (CMasternodeMan_init h))))"
proof (intro conjI impI)
  assume "Has (outpoint mn) st \<or> HasAddr (addr mn) st"
  then show "Add mn st = (False, st)" by (auto simp: Add_def)
next
  assume a: "\<not> Has (outpoint mn) st \<and> \<not> HasAddr (addr mn) st"
  then show "fst (Add mn st)" by (simp add: Add_def)
  from a show "Find (outpoint mn) (snd (Add mn st)) = Some mn"
    by (simp add: Add_def Find_def map_of_map_assign)
  from a show "\<forall>k. k \<noteq> outpoint mn \<longrightarrow> Find k (snd (Add mn st)) = Find k st"
    by (simp add: Add_def Find_def map_of_map_assign)
  from a have "outpoint mn \<notin> fst ` set (mapMasternodes st)"
    by (simp add: Has_def map_of_eq_None_iff)
  then have "set (map_assign (outpoint mn) mn (mapMasternodes st))
      = insert (outpoint mn, mn) (set (mapMasternodes st))"
    by (rule set_map_assign_fresh)
  with a show "set (mapMasternodes (snd (Add mn st)))
      = insert (outpoint mn, mn) (set (mapMasternodes st))"
    by (simp add: Add_def)
next
  have "registry_wf (mapMasternodes (CMasternodeMan_init h))"
    by (simp add: registry_wf_def CMasternodeMan_init_def)
  then show "distinct (map (\<lambda>p. outpoint (snd p))
      (mapMasternodes (run_ops env ops (CMasternodeMan_init h))))"
    by (intro registry_wf_distinct_outpoints registry_wf_run_ops)
qed

lemma ex_env_simps [simp]:
  "IsBlockchainSynced ex_env = True"
  "IsMasternodeListSynced ex_env = True"
  "IsWinnersListSynced ex_env = True"
  "IsSynced ex_env = True"
  "GetBlockHash ex_env = (\<lambda>h. if 0 \<le> h then Some 0 else None)"
  "GetTime ex_env = 1000"
  "GetRandInt ex_env = (\<lambda>i n. 0)"
  "IsArgSet_connect ex_env = False"
  "GetMinMasternodePaymentsProto ex_env = 70208"
  "IsScheduled ex_env = (\<lambda>mn h. False)"
  "GetUTXOConfirmations ex_env = (\<lambda>op. 1000)"
  "SigTimeTooNew ex_env = (\<lambda>mn n. False)"
  "CalculateScore ex_env = (\<lambda>mn h. fst (outpoint mn) + h)"
  "IsValidForPayment ex_env = (\<lambda>mn. nActiveState mn = MASTERNODE_ENABLED)"
  "IsPoSeVerified ex_env = (\<lambda>mn. False)"
  "Check ex_env = (\<lambda>mn. mn)"
  "IsValidStateForAutoStart ex_env = (\<lambda>s. s = MASTERNODE_ENABLED \<or> s = MASTERNODE_PRE_ENABLED)"
  "IsExpired ex_env = (\<lambda>mnp. False)"
  "GetHash_mnb ex_env = (\<lambda>mnb. fst (outpoint mnb) + word_of_int (sigTime mnb))"
  "SimpleCheck ex_env = (\<lambda>mnb nDos. (True, 0))"
  "Update ex_env = (\<lambda>mnb pmn nDos. (True, 0, pmn\<lparr> sigTime := sigTime mnb, lastPing := lastPing mnb, nActiveState := MASTERNODE_PRE_ENABLED \<rparr>))"
  "CheckOutpoint ex_env = (\<lambda>mnb nDos. (True, nDos))"
  "CheckAddr ex_env = (\<lambda>mnb nDos. (True, nDos))"
  "DefaultBroadcast ex_env = mnb_of_mn (ex_entry 0 0)"
  "GetMasternodeRanks_nMinProtocol ex_env = 0"
  "GetHash_mnv ex_env = (\<lambda>mnv. word_of_int (nonce mnv))"
  "GetSignatureHash1 ex_env = (\<lambda>mnv bh. bh + word_of_int (nonce mnv))"
  "GetSignatureHash2 ex_env = (\<lambda>mnv bh. bh + word_of_int (nonce mnv) + 1)"
  "IsSporkActive_NEW_SIGS ex_env = True"
  "VerifyHash ex_env = (\<lambda>h pk sig. sig = pk)"
  "VerifyMessage ex_env = (\<lambda>pk sig msg. sig = pk)"
  "SignHash ex_env = (\<lambda>h. Some [7])"
  "SignMessage ex_env = (\<lambda>msg. Some [7])"
  "strMessage1 ex_env = (\<lambda>a n bh. [])"
  "strMessage2 ex_env = (\<lambda>a n bh o1 o2. [])"
  "ConnectSocket ex_env = (\<lambda>a. True)"
  "IsIPv4 ex_env = (\<lambda>a. True)"
  "IsIPv6 ex_env = (\<lambda>a. False)"
  "fOkDual ex_env = False"
  "fOkIPv4 ex_env = True"
  "fOkIPv6 ex_env = False"
  "fMasternodeMode ex_env = True"
  "activeMasternode ex_env = \<lparr> am_outpoint = (7, 0), am_service = (77, 9999), am_pubKeyMasternode = [7] \<rparr>"
  "MASTERNODE_POSE_BAN_MAX_SCORE ex_env = 5"
  "MNB_RECOVERY_MAX_ASK_ENTRIES ex_env = 10"
  "MNB_RECOVERY_QUORUM_TOTAL ex_env = 10"
  "MNB_RECOVERY_QUORUM_REQUIRED ex_env = 2"
  "MNB_RECOVERY_WAIT_SECONDS ex_env = 60"
  "MNB_RECOVERY_RETRY_SECONDS ex_env = 10800"
  "MAX_POSE_BLOCKS ex_env = 10"
  "MAX_POSE_RANK ex_env = 10"
  "MIN_POSE_PROTO_VERSION ex_env = 70203"
  "MASTERNODE_NEW_START_REQUIRED_SECONDS ex_env = 10800"
  "MASTERNODE_MIN_MNP_SECONDS ex_env = 600"
  "PROTOCOL_VERSION ex_env = 70210"
  by (simp_all add: ex_env_def)

lemma ex_two_reg: "mapMasternodes ex_two = [((1, 0), ex_entry 1 11), ((7, 0), ex_entry 7 77)]"
  by (simp add: ex_two_def Add_def Has_def HasAddr_def CMasternodeMan_init_def ex_entry_def)

theorem Add_keeps_outpoints_unique_witness:
  "Has (outpoint (ex_entry 1 12)) ex_two \<and> Add (ex_entry 1 12) ex_two = (False, ex_two) \<and>
   HasAddr (addr (ex_entry 2 11)) ex_two \<and> Add (ex_entry 2 11) ex_two = (False, ex_two) \<and>
   \<not> Has (outpoint (ex_entry 3 33)) ex_two \<and> \<not> HasAddr (addr (ex_entry 3 33)) ex_two \<and>
   fst (Add (ex_entry 3 33) ex_two) \<and>
   Find (outpoint (ex_entry 3 33)) (snd (Add (ex_entry 3 33) ex_two)) = Some (ex_entry 3 33) \<and>
   Find (1, 0) (snd (Add (ex_entry 3 33) ex_two)) = Find (1, 0) ex_two \<and>
   distinct (map (\<lambda>p. outpoint (snd p)) (mapMasternodes (run_ops ex_env
       [OpAdd (ex_entry 1 11), OpAdd (ex_entry 1 12), OpRemove (1, 0), OpAdd (ex_entry 1 12)]
       (CMasternodeMan_init 100))))"
proof -
  have h1: "Has (outpoint (ex_entry 1 12)) ex_two"
    by (simp add: Has_def ex_two_reg) (simp add: ex_entry_def)
  have h2: "HasAddr (addr (ex_entry 2 11)) ex_two"
    by (simp add: HasAddr_def ex_two_reg) (simp add: ex_entry_def)
  have h3: "\<not> Has (outpoint (ex_entry 3 33)) ex_two \<and> \<not> HasAddr (addr (ex_entry 3 33)) ex_two"
    by (simp add: Has_def HasAddr_def ex_two_reg) (simp add: ex_entry_def)
  have k: "(1, 0) \<noteq> outpoint (ex_entry 3 33)" by (simp add: ex_entry_def)
  show ?thesis
    using h1 h2 h3 k
      Add_keeps_outpoints_unique [of "ex_entry 1 12" ex_two ex_env
        "[OpAdd (ex_entry 1 11), OpAdd (ex_entry 1 12), OpRemove (1, 0), OpAdd (ex_entry 1 12)]" 100]
      Add_keeps_outpoints_unique [of "ex_entry 2 11" ex_two ex_env "[]" 100]
      Add_keeps_outpoints_unique [of "ex_entry 3 33" ex_two ex_env "[]" 100]
    by blast
qed

section \<open>Properties of PoSe scoring through the manager\<close>

lemma map_of_update_entry:
  "map_of (update_entry k f m) k' = (if k' = k then map_option f (map_of m k') else map_of m k')"
  by (induction m) (auto simp: update_entry_def)

lemma Find_update_other:
  "k' \<noteq> k \<Longrightarrow>
     Find k' (st\<lparr> mapMasternodes := update_entry k f (mapMasternodes st) \<rparr>) = Find k' st"
  by (simp add: Find_def map_of_update_entry)

lemma own_Increase:
  "Find (am_outpoint (activeMasternode env)) (snd (IncreasePoSeBanScore env op st))
     = Find (am_outpoint (activeMasternode env)) st"
  by (auto simp: IncreasePoSeBanScore_def Find_update_other split: option.splits)

lemma own_Decrease:
  "Find (am_outpoint (activeMasternode env)) (snd (DecreasePoSeBanScore env op st))
     = Find (am_outpoint (activeMasternode env)) st"
  by (auto simp: DecreasePoSeBanScore_def Find_update_other split: option.splits)

lemma own_PoSeBan:
  "Find (am_outpoint (activeMasternode env)) (snd (PoSeBan env op st))
     = Find (am_outpoint (activeMasternode env)) st"
  by (auto simp: PoSeBan_def Find_update_other split: option.splits)

text \<open>
  Claim C10. Each of \<open>IncreasePoSeBanScore\<close>, \<open>DecreasePoSeBanScore\<close> and \<open>PoSeBan\<close>, by
  outpoint or by address, returns false and leaves the manager unchanged when the target is
  the local node's own outpoint, respectively its own service address; and whatever the target
  \<open>op'\<close> or \<open>a'\<close>, the entry stored under the local node's own outpoint is the same after the
  call as before.
\<close>

theorem PoSe_scoring_skips_self:
  "(op = am_outpoint (activeMasternode env) \<longrightarrow>
      IncreasePoSeBanScore env op st = (False, st) \<and>
      DecreasePoSeBanScore env op st = (False, st) \<and>
      PoSeBan env op st = (False, st)) \<and>
   (a = am_service (activeMasternode env) \<longrightarrow>
      IncreasePoSeBanScore_addr env a st = (False, st) \<and>
      DecreasePoSeBanScore_addr env a st = (False, st) \<and>
      PoSeBan_addr env a st = (False, st)) \<and>
   Find (am_outpoint (activeMasternode env)) (snd (IncreasePoSeBanScore env op' st))
     = Find (am_outpoint (activeMasternode env)) st \<and>
   Find (am_outpoint (activeMasternode env)) (snd (DecreasePoSeBanScore env op' st))
     = Find (am_outpoint (activeMasternode env)) st \<and>
   Find (am_outpoint (activeMasternode env)) (snd (PoSeBan env op' st))
     = Find (am_outpoint (activeMasternode env)) st \<and>
   Find (am_outpoint (activeMasternode env)) (snd (IncreasePoSeBanScore_addr env a' st))
     = Find (am_outpoint (activeMasternode env)) st \<and>
   Find (am_outpoint (activeMasternode env)) (snd (DecreasePoSeBanScore_addr env a' st))
     = Find (am_outpoint (activeMasternode env)) st \<and>
   Find (am_outpoint (activeMasternode env)) (snd (PoSeBan_addr env a' st))
     = Find (am_outpoint (activeMasternode env)) st"
proof -
  have 1: "op = am_outpoint (activeMasternode env) \<longrightarrow>
      IncreasePoSeBanScore env op st = (False, st) \<and>
      DecreasePoSeBanScore env op st = (False, st) \<and>
      PoSeBan env op st = (False, st)"
    by (simp add: IncreasePoSeBanScore_def DecreasePoSeBanScore_def PoSeBan_def)
  have 2: "a = am_service (activeMasternode env) \<longrightarrow>
      IncreasePoSeBanScore_addr env a st = (False, st) \<and>
      DecreasePoSeBanScore_addr env a st = (False, st) \<and>
      PoSeBan_addr env a st = (False, st)"
    by (simp add: IncreasePoSeBanScore_addr_def DecreasePoSeBanScore_addr_def PoSeBan_addr_def)
  have 3: "Find (am_outpoint (activeMasternode env)) (snd (IncreasePoSeBanScore_addr env a' st))
     = Find (am_outpoint (activeMasternode env)) st"
    by (simp add: IncreasePoSeBanScore_addr_def own_Increase split: option.splits)
  have 4: "Find (am_outpoint (activeMasternode env)) (snd (DecreasePoSeBanScore_addr env a' st))
     = Find (am_outpoint (activeMasternode env)) st"
    by (simp add: DecreasePoSeBanScore_addr_def own_Decrease split: option.splits)
  have 5: "Find (am_outpoint (activeMasternode env)) (snd (PoSeBan_addr env a' st))
     = Find (am_outpoint (activeMasternode env)) st"
    by (simp add: PoSeBan_addr_def own_PoSeBan split: option.splits)
  show ?thesis
    using 1 2 3 4 5 own_Increase[of env op' st] own_Decrease[of env op' st]
      own_PoSeBan[of env op' st]
    by blast
qed

theorem PoSe_scoring_skips_self_witness:
  "(7, 0) = am_outpoint (activeMasternode ex_env) \<and>
   (77, 9999) = am_service (activeMasternode ex_env) \<and>
   IncreasePoSeBanScore ex_env (7, 0) ex_two = (False, ex_two) \<and>
   DecreasePoSeBanScore ex_env (7, 0) ex_two = (False, ex_two) \<and>
   PoSeBan ex_env (7, 0) ex_two = (False, ex_two) \<and>
   IncreasePoSeBanScore_addr ex_env (77, 9999) ex_two = (False, ex_two) \<and>
   DecreasePoSeBanScore_addr ex_env (77, 9999) ex_two = (False, ex_two) \<and>
   PoSeBan_addr ex_env (77, 9999) ex_two = (False, ex_two) \<and>
   fst (PoSeBan_addr ex_env (11, 9999) ex_two) \<and>
   Find (7, 0) (snd (PoSeBan_addr ex_env (11, 9999) ex_two)) = Some (ex_entry 7 77)"
proof -
  have h1: "(7, 0) = am_outpoint (activeMasternode ex_env)"
    by simp
  have h2: "(77, 9999) = am_service (activeMasternode ex_env)"
    by simp
  have r: "fst (PoSeBan_addr ex_env (11, 9999) ex_two)"
    by (simp add: PoSeBan_addr_def PoSeBan_def Find_def ex_two_reg ex_entry_def)
  have f: "Find (7, 0) ex_two = Some (ex_entry 7 77)"
    by (simp add: Find_def ex_two_reg)
  note t = PoSe_scoring_skips_self
      [of "(7, 0)" ex_env ex_two "(77, 9999)" "(1, 0)" "(11, 9999)", unfolded h1 [symmetric]]
  from t h1 h2 have
    "IncreasePoSeBanScore ex_env (7, 0) ex_two = (False, ex_two) \<and>
     DecreasePoSeBanScore ex_env (7, 0) ex_two = (False, ex_two) \<and>
     PoSeBan ex_env (7, 0) ex_two = (False, ex_two) \<and>
     IncreasePoSeBanScore_addr ex_env (77, 9999) ex_two = (False, ex_two) \<and>
     DecreasePoSeBanScore_addr ex_env (77, 9999) ex_two = (False, ex_two) \<and>
     PoSeBan_addr ex_env (77, 9999) ex_two = (False, ex_two)"
    by blast
  moreover from t have
    "Find (7, 0) (snd (PoSeBan_addr ex_env (11, 9999) ex_two)) = Find (7, 0) ex_two"
    by blast
  ultimately show ?thesis
    using h1 h2 r f by (simp only:)
qed

section \<open>Properties of ranking and payment selection\<close>

lemma insort_by_key:
  assumes "\<And>a b. cmp a b \<longleftrightarrow> key a < key b"
  shows "insort_by cmp x ys = insort_key key x ys"
  by (induction ys) (auto simp: assms)

lemma std_sort_key:
  assumes "\<And>a b. cmp a b \<longleftrightarrow> key a < key b"
  shows "std_sort cmp xs = sort_key key xs"
  unfolding std_sort_def sort_key_def
  by (induction xs) (simp_all add: insort_by_key[OF assms])

lemma mset_eq_distinct_map:
  assumes "mset ys = mset xs"
  shows "distinct (map f ys) = distinct (map f xs)"
proof -
  have "mset (map f ys) = mset (map f xs)"
    using assms by simp
  then show ?thesis by (rule mset_eq_imp_distinct_iff)
qed

lemma mset_std_sort:
  assumes "\<And>a b. cmp a b \<longleftrightarrow> (key a :: 'k::linorder) < key b"
  shows "mset (std_sort cmp xs) = mset xs"
  by (simp add: std_sort_key[OF assms])

lemma std_sort_strict:
  assumes k: "\<And>a b. cmp a b \<longleftrightarrow> (key a :: 'k::linorder) < key b"
    and d: "distinct (map key xs)"
  shows "sorted_wrt cmp (std_sort cmp xs)"
proof -
  let ?s = "sort_key key xs"
  have "mset ?s = mset xs" by simp
  then have "distinct (map key ?s) = distinct (map key xs)"
    by (rule mset_eq_distinct_map)
  with d have "distinct (map key ?s)" by blast
  moreover have "sorted (map key ?s)" by (rule sorted_sort_key)
  ultimately have "sorted_wrt (<) (map key ?s)"
    by (simp add: strict_sorted_iff)
  then have "sorted_wrt (\<lambda>a b. key a < key b) ?s"
    by (simp add: sorted_wrt_map)
  moreover have "cmp = (\<lambda>a b. key a < key b)"
    using k by (simp add: fun_eq_iff)
  ultimately have "sorted_wrt cmp ?s" by simp
  moreover have "std_sort cmp xs = ?s" by (rule std_sort_key[OF k])
  ultimately show ?thesis by simp
qed

lemma distinct_key_of_outpoints:
  assumes "distinct (map (\<lambda>t. outpoint (snd t)) xs)"
  shows "distinct (map (\<lambda>t. (fst t, outpoint (snd t))) xs)"
proof -
  have "map (\<lambda>t. outpoint (snd t)) xs = map snd (map (\<lambda>t. (fst t, outpoint (snd t))) xs)"
    by simp
  with assms have "distinct (map snd (map (\<lambda>t. (fst t, outpoint (snd t))) xs))"
    by (simp only:)
  then show ?thesis
    using distinct_map[of snd "map (\<lambda>t. (fst t, outpoint (snd t))) xs"] by blast
qed

lemma CompareScoreMN_key: "CompareScoreMN a b \<longleftrightarrow> score_key a < score_key b"
  by (cases a; cases b) (auto simp: CompareScoreMN_def score_key_def)

lemma CompareLastPaidBlock_key: "CompareLastPaidBlock a b \<longleftrightarrow> last_paid_key a < last_paid_key b"
  by (cases a; cases b) (auto simp: CompareLastPaidBlock_def last_paid_key_def)

lemma sorted_desc_scores:
  assumes "distinct (map (\<lambda>t. outpoint (snd t)) xs)"
  shows "sorted_wrt (\<lambda>a b. CompareScoreMN b a) (rev (std_sort CompareScoreMN (rev xs)))"
proof -
  have "distinct (map (\<lambda>t. outpoint (snd t)) (rev xs))"
    using assms by (simp add: rev_map [symmetric])
  then have "distinct (map score_key (rev xs))"
    unfolding score_key_def by (rule distinct_key_of_outpoints)
  then have "sorted_wrt CompareScoreMN (std_sort CompareScoreMN (rev xs))"
    by (rule std_sort_strict[OF CompareScoreMN_key])
  then show ?thesis by (simp add: sorted_wrt_rev)
qed

lemma sorted_desc_scores_explicit:
  assumes "distinct (map (\<lambda>t. outpoint (snd t)) xs)"
  shows "sorted_wrt (\<lambda>a b. fst b < fst a \<or> (fst b = fst a \<and> outpoint (snd b) < outpoint (snd a)))
           (rev (std_sort CompareScoreMN (rev xs)))"
proof -
  have "sorted_wrt (\<lambda>a b. CompareScoreMN b a) (rev (std_sort CompareScoreMN (rev xs)))"
    using assms by (rule sorted_desc_scores)
  then show ?thesis
    by (rule sorted_wrt_mono_rel[rotated]) (auto simp: CompareScoreMN_def split: if_splits)
qed

lemma last_paid_vec_map:
  "last_paid_vec env h f n m =
     map (\<lambda>p. (nBlockLastPaid (snd p), snd p))
       (filter (\<lambda>p. IsValidForPayment env (snd p) \<and>
                    \<not> nProtocolVersion (snd p) < GetMinMasternodePaymentsProto env \<and>
                    \<not> IsScheduled env (snd p) h \<and>
                    \<not> (f \<and> SigTimeTooNew env (snd p) n) \<and>
                    \<not> GetUTXOConfirmations env (fst p) < n) m)"
  by (induction m) auto

lemma distinct_outpoints_last_paid_vec:
  assumes "registry_wf m"
  shows "distinct (map (\<lambda>t. outpoint (snd t)) (last_paid_vec env h f n m))"
proof -
  have "distinct (map (\<lambda>p. outpoint (snd p)) m)"
    using assms by (rule registry_wf_distinct_outpoints)
  then show ?thesis
    unfolding last_paid_vec_map by (simp add: comp_def distinct_map_filter)
qed

lemma sorted_last_paid:
  assumes "registry_wf m"
  shows "sorted_wrt CompareLastPaidBlock (std_sort CompareLastPaidBlock (last_paid_vec env h f n m))"
proof -
  have "distinct (map last_paid_key (last_paid_vec env h f n m))"
    unfolding last_paid_key_def
    by (rule distinct_key_of_outpoints) (rule distinct_outpoints_last_paid_vec[OF assms])
  then show ?thesis by (rule std_sort_strict[OF CompareLastPaidBlock_key])
qed

lemma best_of_tenth_char:
  "(best_of_tenth env bh n xs c hi pb = pb \<and>
      (\<forall>s \<in> set (take (nat (max 1 (n - c))) xs). CalculateScore env (snd s) bh \<le> hi)) \<or>
   (\<exists>s \<in> set (take (nat (max 1 (n - c))) xs).
      best_of_tenth env bh n xs c hi pb = Some (snd s) \<and>
      hi < CalculateScore env (snd s) bh \<and>
      (\<forall>t \<in> set (take (nat (max 1 (n - c))) xs).
          CalculateScore env (snd t) bh \<le> CalculateScore env (snd s) bh))"
proof (induction xs arbitrary: c hi pb)
  case Nil
  then show ?case by simp
next
  case (Cons s xs)
  let ?sc = "CalculateScore env (snd s) bh"
  show ?case
  proof (cases "c + 1 \<ge> n")
    case True
    then have "n - c \<le> 1" by simp
    then have "max 1 (n - c) = 1" by (simp add: max_def)
    then have "nat (max 1 (n - c)) = Suc 0" by simp
    then have w: "take (nat (max 1 (n - c))) (s # xs) = [s]"
      by simp
    show ?thesis
      unfolding w using True by (auto simp: Let_def)
  next
    case False
    then have "nat (max 1 (n - c)) = Suc (nat (max 1 (n - (c + 1))))"
      by (simp add: max_def)
    then have w: "take (nat (max 1 (n - c))) (s # xs) = s # take (nat (max 1 (n - (c + 1)))) xs"
      by (simp only: take_Suc_Cons)
    let ?hi = "if ?sc > hi then ?sc else hi"
    let ?pb = "if ?sc > hi then Some (snd s) else pb"
    have e: "best_of_tenth env bh n (s # xs) c hi pb = best_of_tenth env bh n xs (c + 1) ?hi ?pb"
      using False by (simp add: Let_def)
    from Cons.IH[of "c + 1" ?hi ?pb]
    show ?thesis
      unfolding w e by (cases "?sc > hi") (auto simp: not_less)
  qed
qed

lemma scores_vec_map:
  "scores_vec env bh mp m =
     map (\<lambda>p. (CalculateScore env (snd p) bh, snd p))
       (filter (\<lambda>p. mp \<le> nProtocolVersion (snd p)) m)"
  by (induction m) auto

lemma distinct_outpoints_scores_vec:
  assumes "registry_wf m"
  shows "distinct (map (\<lambda>t. outpoint (snd t)) (scores_vec env bh mp m))"
proof -
  have "distinct (map (\<lambda>p. outpoint (snd p)) m)"
    using assms by (rule registry_wf_distinct_outpoints)
  then show ?thesis
    unfolding scores_vec_map by (simp add: comp_def distinct_map_filter)
qed

lemma set_std_sort_scores: "set (rev (std_sort CompareScoreMN (rev xs))) = set xs"
  by (simp add: std_sort_key[OF CompareScoreMN_key])

lemma outpoints_std_sort_scores:
  "distinct (map f (rev (std_sort CompareScoreMN (rev xs)))) = distinct (map f xs)"
proof -
  have "mset (rev (std_sort CompareScoreMN (rev xs))) = mset xs"
    by (simp add: std_sort_key[OF CompareScoreMN_key])
  then show ?thesis by (rule mset_eq_distinct_map)
qed

lemma rank_loop_position:
  assumes "distinct (map (\<lambda>t. outpoint (snd t)) xs)" and "(s, e) \<in> set xs"
  shows "\<exists>i < length xs. xs ! i = (s, e) \<and> rank_loop (outpoint e) xs n = Some (n + int i + 1)"
  using assms
proof (induction xs arbitrary: n)
  case Nil then show ?case by simp
next
  case (Cons x xs)
  show ?case
  proof (cases "x = (s, e)")
    case True
    then have "(x # xs) ! 0 = (s, e) \<and> rank_loop (outpoint e) (x # xs) n = Some (n + int 0 + 1)"
      by simp
    then show ?thesis by blast
  next
    case False
    with Cons.prems have mem: "(s, e) \<in> set xs" by simp
    then have "outpoint e \<in> (\<lambda>t. outpoint (snd t)) ` set xs"
      by (rule rev_image_eqI) simp
    moreover from Cons.prems(1)
    have "outpoint (snd x) \<notin> (\<lambda>t. outpoint (snd t)) ` set xs"
      by simp
    ultimately have ne: "outpoint (snd x) \<noteq> outpoint e" by metis
    from Cons.prems have "distinct (map (\<lambda>t. outpoint (snd t)) xs)" by simp
    from Cons.IH[OF this mem, of "n + 1"] obtain i where
      i: "i < length xs" "xs ! i = (s, e)"
         "rank_loop (outpoint e) xs (n + 1) = Some (n + 1 + int i + 1)"
      by blast
    then have "Suc i < length (x # xs) \<and> (x # xs) ! Suc i = (s, e) \<and>
        rank_loop (outpoint e) (x # xs) n = Some (n + int (Suc i) + 1)"
      using ne by simp
    then show ?thesis by blast
  qed
qed

text \<open>
  Claim C4. Let the registry satisfy its representation invariant and let \<open>e\<close> be one of its
  entries with protocol version at least \<open>nMinProtocol\<close>. When the list is synced and the
  block hash at the height is known, \<open>GetMasternodeScores\<close> returns the scored entries of at
  least that protocol version, each once, in descending order of score, entries of equal score
  in descending order of outpoint, and \<open>GetMasternodeRank\<close> returns one more than the index
  of \<open>e\<close> in that list. When the list is not synced or the block hash is unknown,
  \<open>GetMasternodeRank\<close> fails with rank \<open>-1\<close>.
\<close>

theorem GetMasternodeRank_is_position:
  assumes "registry_wf (mapMasternodes st)"
    and "(k, e) \<in> set (mapMasternodes st)"
    and "nMinProtocol \<le> nProtocolVersion e"
  shows "(IsMasternodeListSynced env \<and> GetBlockHash env nHeight = Some bh \<longrightarrow>
           (\<exists>scores i.
              GetMasternodeScores env bh nMinProtocol st = (True, scores) \<and>
              sorted_wrt (\<lambda>a b. fst b < fst a \<or>
                                 (fst b = fst a \<and> outpoint (snd b) < outpoint (snd a))) scores \<and>
              mset scores = mset (map (\<lambda>p. (CalculateScore env (snd p) bh, snd p))
                 (filter (\<lambda>p. nMinProtocol \<le> nProtocolVersion (snd p)) (mapMasternodes st))) \<and>
              i < length scores \<and> scores ! i = (CalculateScore env e bh, e) \<and>
              GetMasternodeRank env (outpoint e) nHeight nMinProtocol st = (True, int i + 1))) \<and>
         (\<not> IsMasternodeListSynced env \<or> GetBlockHash env nHeight = None \<longrightarrow>
            GetMasternodeRank env (outpoint e) nHeight nMinProtocol st = (False, -1))"
proof (intro conjI impI)
  assume a: "IsMasternodeListSynced env \<and> GetBlockHash env nHeight = Some bh"
  let ?vec = "scores_vec env bh nMinProtocol (mapMasternodes st)"
  let ?scores = "rev (std_sort CompareScoreMN (rev ?vec))"
  have d: "distinct (map (\<lambda>t. outpoint (snd t)) ?vec)"
    using assms(1) by (rule distinct_outpoints_scores_vec)
  have mem: "(CalculateScore env e bh, e) \<in> set ?vec"
    using assms(2,3) by (force simp: scores_vec_map)
  then have mem': "(CalculateScore env e bh, e) \<in> set ?scores"
    by (simp only: set_std_sort_scores)
  have d': "distinct (map (\<lambda>t. outpoint (snd t)) ?scores)"
    using d by (simp only: outpoints_std_sort_scores)
  from rank_loop_position[OF d' mem', of 0] obtain i where
    i: "i < length ?scores" "?scores ! i = (CalculateScore env e bh, e)"
       "rank_loop (outpoint e) ?scores 0 = Some (int i + 1)"
    by auto
  have ne: "?scores \<noteq> []" using mem' by auto
  have ne0: "mapMasternodes st \<noteq> []" using assms(2) by auto
  have g: "GetMasternodeScores env bh nMinProtocol st = (True, ?scores)"
    using a ne ne0 by (simp add: GetMasternodeScores_def Let_def)
  have r: "GetMasternodeRank env (outpoint e) nHeight nMinProtocol st = (True, int i + 1)"
    using a g i(3) by (simp add: GetMasternodeRank_def)
  have s: "sorted_wrt (\<lambda>a b. fst b < fst a \<or>
                                 (fst b = fst a \<and> outpoint (snd b) < outpoint (snd a))) ?scores"
    using d by (rule sorted_desc_scores_explicit)
  have "mset ?scores = mset ?vec"
    by (simp add: std_sort_key[OF CompareScoreMN_key])
  then have st: "mset ?scores = mset (map (\<lambda>p. (CalculateScore env (snd p) bh, snd p))
                 (filter (\<lambda>p. nMinProtocol \<le> nProtocolVersion (snd p)) (mapMasternodes st)))"
    by (simp only: scores_vec_map)
  show "\<exists>scores i.
              GetMasternodeScores env bh nMinProtocol st = (True, scores) \<and>
              sorted_wrt (\<lambda>a b. fst b < fst a \<or>
                                 (fst b = fst a \<and> outpoint (snd b) < outpoint (snd a))) scores \<and>
              mset scores = mset (map (\<lambda>p. (CalculateScore env (snd p) bh, snd p))
                 (filter (\<lambda>p. nMinProtocol \<le> nProtocolVersion (snd p)) (mapMasternodes st))) \<and>
              i < length scores \<and> scores ! i = (CalculateScore env e bh, e) \<and>
              GetMasternodeRank env (outpoint e) nHeight nMinProtocol st = (True, int i + 1)"
    using g s st i(1,2) r by blast
next
  assume "\<not> IsMasternodeListSynced env \<or> GetBlockHash env nHeight = None"
  then show "GetMasternodeRank env (outpoint e) nHeight nMinProtocol st = (False, -1)"
    by (auto simp: GetMasternodeRank_def)
qed

lemma ex_two_wf: "registry_wf (mapMasternodes ex_two)"
  by (simp add: ex_two_reg registry_wf_def) (simp add: ex_entry_def)

lemma ex_two_rank: "GetMasternodeRank ex_env (1, 0) 50 70203 ex_two = (True, 2)"
  by (simp add: GetMasternodeRank_def GetMasternodeScores_def ex_two_reg std_sort_def
        CompareScoreMN_def Let_def ex_entry_def)

lemma ex_env_falling_simps [simp]:
  "IsMasternodeListSynced ex_env_falling"
  "GetBlockHash ex_env_falling = (\<lambda>h. if 0 \<le> h then Some 0 else None)"
  "CalculateScore ex_env_falling = (\<lambda>mn h. 100 - fst (outpoint mn))"
  by (simp_all add: ex_env_falling_def)

lemma ex_two_scores:
  "GetMasternodeScores ex_env 0 70203 ex_two = (True, [(7, ex_entry 7 77), (1, ex_entry 1 11)])"
  by (simp add: GetMasternodeScores_def ex_two_reg std_sort_def CompareScoreMN_def Let_def
        ex_entry_def)

lemma ex_two_scores_falling:
  "GetMasternodeScores ex_env_falling 0 70203 ex_two
     = (True, [(99, ex_entry 1 11), (93, ex_entry 7 77)])"
  by (simp add: GetMasternodeScores_def ex_two_reg std_sort_def CompareScoreMN_def Let_def
        ex_entry_def)

lemma ex_two_rank_falling:
  "GetMasternodeRank ex_env_falling (1, 0) 50 70203 ex_two = (True, 1)"
  by (simp add: GetMasternodeRank_def ex_two_scores_falling) (simp add: ex_entry_def)

theorem GetMasternodeRank_is_position_witness:
  "registry_wf (mapMasternodes ex_two) \<and>
   ((1, 0), ex_entry 1 11) \<in> set (mapMasternodes ex_two) \<and>
   70203 \<le> nProtocolVersion (ex_entry 1 11) \<and>
   IsMasternodeListSynced ex_env \<and> GetBlockHash ex_env 50 = Some 0 \<and>
   IsMasternodeListSynced ex_env_falling \<and> GetBlockHash ex_env_falling 50 = Some 0 \<and>
   GetBlockHash ex_env (-1) = None \<and>
   (\<exists>scores i.
      GetMasternodeScores ex_env 0 70203 ex_two = (True, scores) \<and>
      i < length scores \<and> scores ! i = (CalculateScore ex_env (ex_entry 1 11) 0, ex_entry 1 11) \<and>
      GetMasternodeRank ex_env (1, 0) 50 70203 ex_two = (True, int i + 1)) \<and>
   (\<exists>scores i.
      GetMasternodeScores ex_env_falling 0 70203 ex_two = (True, scores) \<and>
      i < length scores \<and>
      scores ! i = (CalculateScore ex_env_falling (ex_entry 1 11) 0, ex_entry 1 11) \<and>
      GetMasternodeRank ex_env_falling (1, 0) 50 70203 ex_two = (True, int i + 1)) \<and>
   GetMasternodeScores ex_env 0 70203 ex_two = (True, [(7, ex_entry 7 77), (1, ex_entry 1 11)]) \<and>
   GetMasternodeRank ex_env (1, 0) 50 70203 ex_two = (True, 2) \<and>
   GetMasternodeScores ex_env_falling 0 70203 ex_two
     = (True, [(99, ex_entry 1 11), (93, ex_entry 7 77)]) \<and>
   GetMasternodeRank ex_env_falling (1, 0) 50 70203 ex_two = (True, 1) \<and>
   GetMasternodeRank ex_env (1, 0) (-1) 70203 ex_two = (False, -1)"
proof -
  have h1: "registry_wf (mapMasternodes ex_two)" by (rule ex_two_wf)
  have h2: "((1, 0), ex_entry 1 11) \<in> set (mapMasternodes ex_two)"
    by (simp add: ex_two_reg)
  have h3: "70203 \<le> nProtocolVersion (ex_entry 1 11)" by (simp add: ex_entry_def)
  have h4: "IsMasternodeListSynced ex_env \<and> GetBlockHash ex_env 50 = Some 0"
    by simp
  have h4': "IsMasternodeListSynced ex_env_falling \<and> GetBlockHash ex_env_falling 50 = Some 0"
    by simp
  have h5: "GetBlockHash ex_env (-1) = None" by simp
  have o: "outpoint (ex_entry 1 11) = (1, 0)" by (simp add: ex_entry_def)
  note t1 = GetMasternodeRank_is_position [OF h1 h2 h3, of ex_env 50 0, unfolded o]
  note t2 = GetMasternodeRank_is_position [OF h1 h2 h3, of ex_env_falling 50 0, unfolded o]
  note t3 = GetMasternodeRank_is_position [OF h1 h2 h3, of ex_env "-1" 0, unfolded o]
  from t1 h4 have a: "\<exists>scores i.
      GetMasternodeScores ex_env 0 70203 ex_two = (True, scores) \<and>
      i < length scores \<and> scores ! i = (CalculateScore ex_env (ex_entry 1 11) 0, ex_entry 1 11) \<and>
      GetMasternodeRank ex_env (1, 0) 50 70203 ex_two = (True, int i + 1)"
    by blast
  from t2 h4' have b: "\<exists>scores i.
      GetMasternodeScores ex_env_falling 0 70203 ex_two = (True, scores) \<and>
      i < length scores \<and>
      scores ! i = (CalculateScore ex_env_falling (ex_entry 1 11) 0, ex_entry 1 11) \<and>
      GetMasternodeRank ex_env_falling (1, 0) 50 70203 ex_two = (True, int i + 1)"
    by blast
  from t3 h5 have c: "GetMasternodeRank ex_env (1, 0) (-1) 70203 ex_two = (False, -1)"
    by blast
  show ?thesis
    by (intro conjI)
       (rule h1 h2 h3 conjunct1[OF h4] conjunct2[OF h4] conjunct1[OF h4'] conjunct2[OF h4'] h5
          a b c ex_two_rank ex_two_scores ex_two_scores_falling ex_two_rank_falling)+
qed

lemma set_insort_by: "set (insort_by cmp x ys) = insert x (set ys)"
  by (induction ys) auto

lemma set_std_sort: "set (std_sort cmp xs) = set xs"
  unfolding std_sort_def by (induction xs) (simp_all add: set_insort_by)

lemma length_insort_by: "length (insort_by cmp x ys) = Suc (length ys)"
  by (induction ys) auto

lemma length_std_sort: "length (std_sort cmp xs) = length xs"
  unfolding std_sort_def by (induction xs) (simp_all add: length_insort_by)

lemma length_last_paid_vec_filter:
  "length (last_paid_vec env h True n m) \<le> length (last_paid_vec env h False n m)"
  by (induction m) auto

lemma GetNext_unsynced:
  "\<not> IsWinnersListSynced env \<Longrightarrow>
     GetNextMasternodeInQueueForPayment env h f st = (False, 0, None)"
  by (subst GetNextMasternodeInQueueForPayment.simps) simp

lemma GetNext_False:
  assumes "IsWinnersListSynced env"
  shows "GetNextMasternodeInQueueForPayment env h False st = payment_result env h False st"
  using assms
  by (subst GetNextMasternodeInQueueForPayment.simps)
     (simp add: payment_result_def Let_def split: option.splits)

lemma GetNext_True_keep:
  assumes "IsWinnersListSynced env"
    and "\<not> int (length (last_paid_vec env h True (CountMasternodes env (-1) st) (mapMasternodes st)))
             < CountMasternodes env (-1) st div 3"
  shows "GetNextMasternodeInQueueForPayment env h True st = payment_result env h True st"
  using assms
  by (subst GetNextMasternodeInQueueForPayment.simps)
     (simp add: payment_result_def Let_def split: option.splits)

lemma GetNext_True_retry:
  assumes "IsWinnersListSynced env"
    and "int (length (last_paid_vec env h True (CountMasternodes env (-1) st) (mapMasternodes st)))
             < CountMasternodes env (-1) st div 3"
  shows "GetNextMasternodeInQueueForPayment env h True st = payment_result env h False st"
proof -
  have "GetNextMasternodeInQueueForPayment env h True st =
        GetNextMasternodeInQueueForPayment env h False st"
    using assms by (subst GetNextMasternodeInQueueForPayment.simps) (simp add: Let_def)
  then show ?thesis by (simp only: GetNext_False[OF assms(1)])
qed

lemma GetNext_effective:
  assumes "IsWinnersListSynced env"
  shows "GetNextMasternodeInQueueForPayment env h f st =
     payment_result env h
       (f \<and> \<not> int (length (last_paid_vec env h True (CountMasternodes env (-1) st)
                              (mapMasternodes st)))
                 < CountMasternodes env (-1) st div 3) st"
proof (cases f)
  case False
  then show ?thesis using GetNext_False[OF assms, of h st] by simp
next
  case True
  show ?thesis
  proof (cases "int (length (last_paid_vec env h True (CountMasternodes env (-1) st)
                              (mapMasternodes st)))
                 < CountMasternodes env (-1) st div 3")
    case True
    with \<open>f\<close> GetNext_True_retry[OF assms True] show ?thesis by simp
  next
    case False
    with \<open>f\<close> GetNext_True_keep[OF assms False] show ?thesis by simp
  qed
qed

lemma best_of_tenth_initial:
  "case best_of_tenth env bh n xs 0 0 None of
     None \<Rightarrow> \<forall>s \<in> set (take (nat (max 1 n)) xs). CalculateScore env (snd s) bh = 0
   | Some mn \<Rightarrow> \<exists>s \<in> set (take (nat (max 1 n)) xs). mn = snd s \<and>
        0 < CalculateScore env mn bh \<and>
        (\<forall>t \<in> set (take (nat (max 1 n)) xs).
            CalculateScore env (snd t) bh \<le> CalculateScore env mn bh)"
  using best_of_tenth_char[of env bh n xs 0 0 None]
  by (force split: option.splits)

lemma sorted_last_paid_explicit:
  assumes "registry_wf m"
  shows "sorted_wrt (\<lambda>a b. fst a < fst b \<or> (fst a = fst b \<and> outpoint (snd a) < outpoint (snd b)))
           (std_sort CompareLastPaidBlock (last_paid_vec env h f n m))"
proof -
  have "sorted_wrt CompareLastPaidBlock (std_sort CompareLastPaidBlock (last_paid_vec env h f n m))"
    using assms by (rule sorted_last_paid)
  then show ?thesis
    by (rule sorted_wrt_mono_rel[rotated]) (auto simp: CompareLastPaidBlock_def split: if_splits)
qed

lemma best_of_tenth_first:
  "(best_of_tenth env bh n xs c hi pb = pb \<and>
      (\<forall>s \<in> set (take (nat (max 1 (n - c))) xs). CalculateScore env (snd s) bh \<le> hi)) \<or>
   (\<exists>i < length (take (nat (max 1 (n - c))) xs).
      best_of_tenth env bh n xs c hi pb = Some (snd (take (nat (max 1 (n - c))) xs ! i)) \<and>
      hi < CalculateScore env (snd (take (nat (max 1 (n - c))) xs ! i)) bh \<and>
      (\<forall>t \<in> set (take (nat (max 1 (n - c))) xs).
          CalculateScore env (snd t) bh
            \<le> CalculateScore env (snd (take (nat (max 1 (n - c))) xs ! i)) bh) \<and>
      (\<forall>j < i. CalculateScore env (snd (take (nat (max 1 (n - c))) xs ! j)) bh
            < CalculateScore env (snd (take (nat (max 1 (n - c))) xs ! i)) bh))"
proof (induction xs arbitrary: c hi pb)
  case Nil
  then show ?case by simp
next
  case (Cons s xs)
  let ?sc = "CalculateScore env (snd s) bh"
  show ?case
  proof (cases "c + 1 \<ge> n")
    case True
    then have "n - c \<le> 1" by simp
    then have "max 1 (n - c) = 1" by (simp add: max_def)
    then have "nat (max 1 (n - c)) = Suc 0" by simp
    then have w: "take (nat (max 1 (n - c))) (s # xs) = [s]"
      by simp
    show ?thesis
      unfolding w using True by (auto simp: Let_def)
  next
    case False
    then have "nat (max 1 (n - c)) = Suc (nat (max 1 (n - (c + 1))))"
      by (simp add: max_def)
    then have w: "take (nat (max 1 (n - c))) (s # xs) = s # take (nat (max 1 (n - (c + 1)))) xs"
      by (simp only: take_Suc_Cons)
    let ?w = "take (nat (max 1 (n - (c + 1)))) xs"
    let ?hi = "if ?sc > hi then ?sc else hi"
    let ?pb = "if ?sc > hi then Some (snd s) else pb"
    let ?r = "best_of_tenth env bh n xs (c + 1) ?hi ?pb"
    have e: "best_of_tenth env bh n (s # xs) c hi pb = ?r"
      using False by (simp add: Let_def)
    from Cons.IH[of "c + 1" ?hi ?pb]
    consider
      (keep) "?r = ?pb" "\<forall>t \<in> set ?w. CalculateScore env (snd t) bh \<le> ?hi"
    | (later) i where "i < length ?w" "?r = Some (snd (?w ! i))"
        "?hi < CalculateScore env (snd (?w ! i)) bh"
        "\<forall>t \<in> set ?w. CalculateScore env (snd t) bh \<le> CalculateScore env (snd (?w ! i)) bh"
        "\<forall>j < i. CalculateScore env (snd (?w ! j)) bh < CalculateScore env (snd (?w ! i)) bh"
      by blast
    then show ?thesis
    proof cases
      case keep
      show ?thesis
      proof (cases "?sc > hi")
        case True
        have "0 < length (s # ?w) \<and> ?r = Some (snd ((s # ?w) ! 0)) \<and>
              hi < CalculateScore env (snd ((s # ?w) ! 0)) bh \<and>
              (\<forall>t \<in> set (s # ?w). CalculateScore env (snd t) bh
                   \<le> CalculateScore env (snd ((s # ?w) ! 0)) bh) \<and>
              (\<forall>j < 0. CalculateScore env (snd ((s # ?w) ! j)) bh
                   < CalculateScore env (snd ((s # ?w) ! 0)) bh)"
          using keep True by simp
        then show ?thesis unfolding w e by blast
      next
        case False
        then have le: "?sc \<le> hi" and h': "?hi = hi" "?pb = pb" by simp_all
        have "?r = pb \<and> (\<forall>t \<in> set (s # ?w). CalculateScore env (snd t) bh \<le> hi)"
          using keep le unfolding h' by simp
        then show ?thesis unfolding w e by blast
      qed
    next
      case later
      let ?m = "CalculateScore env (snd (?w ! i)) bh"
      have a: "?sc < ?m \<and> hi < ?m"
        using later(3) by (cases "?sc > hi") (auto simp: not_less)
      have b: "\<forall>j < Suc i. CalculateScore env (snd ((s # ?w) ! j)) bh < ?m"
      proof (intro allI impI)
        fix j assume "j < Suc i"
        then show "CalculateScore env (snd ((s # ?w) ! j)) bh < ?m"
          using a later(5) by (cases j) auto
      qed
      have "Suc i < length (s # ?w) \<and> ?r = Some (snd ((s # ?w) ! Suc i)) \<and>
              hi < CalculateScore env (snd ((s # ?w) ! Suc i)) bh \<and>
              (\<forall>t \<in> set (s # ?w). CalculateScore env (snd t) bh
                   \<le> CalculateScore env (snd ((s # ?w) ! Suc i)) bh) \<and>
              (\<forall>j < Suc i. CalculateScore env (snd ((s # ?w) ! j)) bh
                   < CalculateScore env (snd ((s # ?w) ! Suc i)) bh)"
        using later(1,2,4) a b by (simp add: less_imp_le)
      then show ?thesis unfolding w e by blast
    qed
  qed
qed

lemma best_of_tenth_initial_first:
  "case best_of_tenth env bh n xs 0 0 None of
     None \<Rightarrow> \<forall>s \<in> set (take (nat (max 1 n)) xs). CalculateScore env (snd s) bh = 0
   | Some mn \<Rightarrow> \<exists>i < length (take (nat (max 1 n)) xs).
        mn = snd (take (nat (max 1 n)) xs ! i) \<and>
        0 < CalculateScore env mn bh \<and>
        (\<forall>t \<in> set (take (nat (max 1 n)) xs).
            CalculateScore env (snd t) bh \<le> CalculateScore env mn bh) \<and>
        (\<forall>j < i. CalculateScore env (snd (take (nat (max 1 n)) xs ! j)) bh
            < CalculateScore env mn bh)"
proof -
  let ?w = "take (nat (max 1 n)) xs"
  let ?r = "best_of_tenth env bh n xs 0 0 None"
  from best_of_tenth_first[of env bh n xs 0 0 None]
  consider
    (none) "?r = None" "\<forall>s \<in> set ?w. CalculateScore env (snd s) bh \<le> 0"
  | (some) i where "i < length ?w" "?r = Some (snd (?w ! i))"
      "0 < CalculateScore env (snd (?w ! i)) bh"
      "\<forall>t \<in> set ?w. CalculateScore env (snd t) bh \<le> CalculateScore env (snd (?w ! i)) bh"
      "\<forall>j < i. CalculateScore env (snd (?w ! j)) bh < CalculateScore env (snd (?w ! i)) bh"
    by auto
  then show ?thesis
  proof cases
    case none
    then show ?thesis by simp
  next
    case some
    then show ?thesis by auto
  qed
qed

text \<open>
  Claim C2, as the code has it. With the registry invariant, let \<open>nMnCount\<close> be the count
  of entries at the minimum payment protocol and \<open>vec\<close> the candidates collected with the flag
  that is finally in force (\<open>fFilterSigTime\<close>, unless fewer than a third of the count pass
  with it). There is a rearrangement \<open>srt\<close> of \<open>vec\<close> in ascending order of last paid block,
  entries paid at the same block in ascending order of outpoint, such that, with \<open>w\<close> the
  first \<open>max 1 (nMnCount div 10)\<close> entries of \<open>srt\<close>: while the winners list is not synced the
  call fails; if the block hash at \<open>h - 101\<close> is unavailable the call fails and returns no
  entry; and if the winners list is synced and the hash is available, the call returns the
  entry of \<open>w\<close> at the first index whose score is positive and not below any score of \<open>w\<close>
  (every entry before it scores strictly less), or no entry when every score of \<open>w\<close> is zero.
\<close>

theorem payment_selection_window:
  assumes "registry_wf (mapMasternodes st)"
    and "nMnCount = CountMasternodes env (-1) st"
    and "f' = (fFilterSigTime \<and>
               \<not> int (length (last_paid_vec env h True nMnCount (mapMasternodes st)))
                   < nMnCount div 3)"
    and "vec = last_paid_vec env h f' nMnCount (mapMasternodes st)"
  shows "\<exists>srt w. mset srt = mset vec \<and>
     sorted_wrt (\<lambda>a b. fst a < fst b \<or>
                        (fst a = fst b \<and> outpoint (snd a) < outpoint (snd b))) srt \<and>
     w = take (nat (max 1 (nMnCount div 10))) srt \<and>
     (\<not> IsWinnersListSynced env \<longrightarrow>
        GetNextMasternodeInQueueForPayment env h fFilterSigTime st = (False, 0, None)) \<and>
     (GetBlockHash env (h - 101) = None \<longrightarrow>
        \<not> fst (GetNextMasternodeInQueueForPayment env h fFilterSigTime st) \<and>
        snd (snd (GetNextMasternodeInQueueForPayment env h fFilterSigTime st)) = None) \<and>
     (IsWinnersListSynced env \<and> GetBlockHash env (h - 101) = Some bh \<longrightarrow>
        (\<exists>res. GetNextMasternodeInQueueForPayment env h fFilterSigTime st
                 = (res \<noteq> None, int (length vec), res) \<and>
           (case res of
              None \<Rightarrow> \<forall>s \<in> set w. CalculateScore env (snd s) bh = 0
            | Some mn \<Rightarrow> \<exists>i < length w. mn = snd (w ! i) \<and> 0 < CalculateScore env mn bh \<and>
                (\<forall>t \<in> set w. CalculateScore env (snd t) bh \<le> CalculateScore env mn bh) \<and>
                (\<forall>j < i. CalculateScore env (snd (w ! j)) bh < CalculateScore env mn bh))))"
proof -
  let ?srt = "std_sort CompareLastPaidBlock vec"
  let ?w = "take (nat (max 1 (nMnCount div 10))) ?srt"
  have m: "mset ?srt = mset vec"
    by (rule mset_std_sort[OF CompareLastPaidBlock_key])
  have s: "sorted_wrt (\<lambda>a b. fst a < fst b \<or>
                        (fst a = fst b \<and> outpoint (snd a) < outpoint (snd b))) ?srt"
    unfolding assms(4) by (rule sorted_last_paid_explicit[OF assms(1)])
  have u: "\<not> IsWinnersListSynced env \<longrightarrow>
        GetNextMasternodeInQueueForPayment env h fFilterSigTime st = (False, 0, None)"
    by (simp add: GetNext_unsynced)
  have n: "GetBlockHash env (h - 101) = None \<longrightarrow>
        \<not> fst (GetNextMasternodeInQueueForPayment env h fFilterSigTime st) \<and>
        snd (snd (GetNextMasternodeInQueueForPayment env h fFilterSigTime st)) = None"
  proof (cases "IsWinnersListSynced env")
    case True
    show ?thesis
      unfolding GetNext_effective[OF True] by (simp add: payment_result_def Let_def)
  next
    case False
    then show ?thesis by (simp add: GetNext_unsynced)
  qed
  have r: "IsWinnersListSynced env \<and> GetBlockHash env (h - 101) = Some bh \<longrightarrow>
        (\<exists>res. GetNextMasternodeInQueueForPayment env h fFilterSigTime st
                 = (res \<noteq> None, int (length vec), res) \<and>
           (case res of
              None \<Rightarrow> \<forall>s \<in> set ?w. CalculateScore env (snd s) bh = 0
            | Some mn \<Rightarrow> \<exists>i < length ?w. mn = snd (?w ! i) \<and> 0 < CalculateScore env mn bh \<and>
                (\<forall>t \<in> set ?w. CalculateScore env (snd t) bh \<le> CalculateScore env mn bh) \<and>
                (\<forall>j < i. CalculateScore env (snd (?w ! j)) bh < CalculateScore env mn bh)))"
  proof
    assume a: "IsWinnersListSynced env \<and> GetBlockHash env (h - 101) = Some bh"
    let ?res = "best_of_tenth env bh (nMnCount div 10) ?srt 0 0 None"
    have "GetNextMasternodeInQueueForPayment env h fFilterSigTime st
            = (?res \<noteq> None, int (length vec), ?res)"
      using a unfolding GetNext_effective[OF conjunct1[OF a]] assms(2-4)
      by (simp add: payment_result_def Let_def)
    moreover have "case ?res of
              None \<Rightarrow> \<forall>s \<in> set ?w. CalculateScore env (snd s) bh = 0
            | Some mn \<Rightarrow> \<exists>i < length ?w. mn = snd (?w ! i) \<and> 0 < CalculateScore env mn bh \<and>
                (\<forall>t \<in> set ?w. CalculateScore env (snd t) bh \<le> CalculateScore env mn bh) \<and>
                (\<forall>j < i. CalculateScore env (snd (?w ! j)) bh < CalculateScore env mn bh)"
      by (rule best_of_tenth_initial_first)
    ultimately show "\<exists>res. GetNextMasternodeInQueueForPayment env h fFilterSigTime st
                 = (res \<noteq> None, int (length vec), res) \<and>
           (case res of
              None \<Rightarrow> \<forall>s \<in> set ?w. CalculateScore env (snd s) bh = 0
            | Some mn \<Rightarrow> \<exists>i < length ?w. mn = snd (?w ! i) \<and> 0 < CalculateScore env mn bh \<and>
                (\<forall>t \<in> set ?w. CalculateScore env (snd t) bh \<le> CalculateScore env mn bh) \<and>
                (\<forall>j < i. CalculateScore env (snd (?w ! j)) bh < CalculateScore env mn bh))"
      by blast
  qed
  show ?thesis
    by (rule exI[of _ ?srt], rule exI[of _ ?w]) (intro conjI m s refl u n r)
qed


lemma ex_two_count: "CountMasternodes ex_env (-1) ex_two = 2"
  by (simp add: CountMasternodes_def ex_two_reg ex_entry_def)

lemma ex_two_vec:
  "last_paid_vec ex_env h f n (mapMasternodes ex_two) =
     (if n \<le> 1000 then [(0, ex_entry 1 11), (0, ex_entry 7 77)] else [])"
  by (simp add: ex_two_reg ex_entry_def)

lemma ex_two_next:
  "GetNextMasternodeInQueueForPayment ex_env 200 False ex_two = (True, 2, Some (ex_entry 1 11))"
  by (simp add: GetNext_False payment_result_def ex_two_count ex_two_vec std_sort_def
        CompareLastPaidBlock_def Let_def)
     (simp add: ex_entry_def)

lemma ex_hundred_count: "CountMasternodes ex_env (-1) ex_hundred = 100"
  by (simp add: CountMasternodes_def ex_hundred_def CMasternodeMan_init_def filter_map comp_def
        ex_paid_def ex_entry_def)

lemma upt_le_9: "filter (\<lambda>i. i \<le> 9) [1..<101] = [1, 2, 3, 4, 5, 6, 7, 8, 9::nat]"
  by code_simp

lemma ex_hundred_vec:
  "last_paid_vec ex_env h False 100 (mapMasternodes ex_hundred) = map (\<lambda>i. (int i, ex_paid i)) [1, 2, 3, 4, 5, 6, 7, 8, 9]"
proof -
  have "last_paid_vec ex_env h False 100 (mapMasternodes ex_hundred)
      = map (\<lambda>i. (int i, ex_paid i)) (filter (\<lambda>i. i \<le> 9) [1..<101])"
    by (simp add: last_paid_vec_map ex_hundred_def CMasternodeMan_init_def filter_map comp_def
        ex_paid_def ex_entry_def)
  then show ?thesis by (simp only: upt_le_9)
qed

lemma ex_hundred_keys:
  "sorted_wrt (<) (map (\<lambda>i. (of_nat i :: uint256, 0 :: 32 word)) [1..<101])"
proof -
  have "sorted_wrt (<) [1..<101::nat]" by simp
  then have "sorted_wrt (\<lambda>i j. (of_nat i :: uint256, 0 :: 32 word) < (of_nat j, 0)) [1..<101]"
  proof (rule sorted_wrt_mono_rel[rotated])
    fix i j :: nat
    assume "i \<in> set [1..<101]" "j \<in> set [1..<101]" and "i < j"
    then have "i < j" "j < 101" by simp_all
    then have "i mod 2 ^ 256 = i" "j mod 2 ^ 256 = j" by simp_all
    with \<open>i < j\<close> have "(of_nat i :: uint256) < of_nat j"
      by (simp add: word_less_nat_alt unat_of_nat)
    then show "(of_nat i :: uint256, 0 :: 32 word) < (of_nat j, 0)"
      by (simp add: less_prod_def)
  qed
  then show ?thesis by (simp only: sorted_wrt_map)
qed

lemma ex_hundred_wf: "registry_wf (mapMasternodes ex_hundred)"
proof -
  have m: "map fst (mapMasternodes ex_hundred) = map (\<lambda>i. (of_nat i :: uint256, 0 :: 32 word)) [1..<101]"
    by (simp add: ex_hundred_def comp_def)
  have "sorted (map fst (mapMasternodes ex_hundred)) \<and> distinct (map fst (mapMasternodes ex_hundred))"
    unfolding m using ex_hundred_keys by (simp only: strict_sorted_iff)
  moreover have "\<forall>p \<in> set (mapMasternodes ex_hundred). outpoint (snd p) = fst p"
    by (simp add: ex_hundred_def ex_paid_def ex_entry_def)
  ultimately show ?thesis unfolding registry_wf_def by blast
qed

lemma ex_env_flat_simps [simp]:
  "IsWinnersListSynced ex_env_flat"
  "GetBlockHash ex_env_flat = (\<lambda>h. if 0 \<le> h then Some 0 else None)"
  "CalculateScore ex_env_flat = (\<lambda>mn h. 5)"
  by (simp_all add: ex_env_flat_def)

lemma ex_hundred_count_flat: "CountMasternodes ex_env_flat (-1) ex_hundred = 100"
  using ex_hundred_count by (simp add: CountMasternodes_def ex_env_flat_def)

lemma last_paid_vec_flat: "last_paid_vec ex_env_flat h f n m = last_paid_vec ex_env h f n m"
  by (simp add: last_paid_vec_map ex_env_flat_def)

lemma ex_hundred_vec_True:
  "last_paid_vec ex_env h True 100 (mapMasternodes ex_hundred)
     = last_paid_vec ex_env h False 100 (mapMasternodes ex_hundred)"
  by (simp add: last_paid_vec_map)

lemma ex_hundred_next_flat:
  "GetNextMasternodeInQueueForPayment ex_env_flat 1000 True ex_hundred
     = (True, 9, Some (ex_paid 1))"
  by (simp add: GetNext_effective payment_result_def ex_hundred_count_flat last_paid_vec_flat
        ex_hundred_vec_True ex_hundred_vec std_sort_def CompareLastPaidBlock_def Let_def)

theorem payment_selection_window_witness:
  "registry_wf (mapMasternodes ex_hundred) \<and>
   \<not> IsWinnersListSynced (ex_env_flat\<lparr> IsWinnersListSynced := False \<rparr>) \<and>
   GetBlockHash ex_env_flat (50 - 101) = None \<and>
   IsWinnersListSynced ex_env_flat \<and> GetBlockHash ex_env_flat (1000 - 101) = Some 0 \<and>
   GetNextMasternodeInQueueForPayment (ex_env_flat\<lparr> IsWinnersListSynced := False \<rparr>) 1000 True
     ex_hundred = (False, 0, None) \<and>
   \<not> fst (GetNextMasternodeInQueueForPayment ex_env_flat 50 True ex_hundred) \<and>
   snd (snd (GetNextMasternodeInQueueForPayment ex_env_flat 50 True ex_hundred)) = None \<and>
   (\<exists>res. GetNextMasternodeInQueueForPayment ex_env_flat 1000 True ex_hundred
            = (res \<noteq> None, 9, res)) \<and>
   GetNextMasternodeInQueueForPayment ex_env_flat 1000 True ex_hundred
     = (True, 9, Some (ex_paid 1))"
proof -
  have h0: "\<not> IsWinnersListSynced (ex_env_flat\<lparr> IsWinnersListSynced := False \<rparr>)" by simp
  have h1: "GetBlockHash ex_env_flat (50 - 101) = None" by simp
  have h2: "IsWinnersListSynced ex_env_flat \<and> GetBlockHash ex_env_flat (1000 - 101) = Some 0"
    by simp
  note t = payment_selection_window [OF ex_hundred_wf refl refl refl]
  from t[where env="ex_env_flat\<lparr> IsWinnersListSynced := False \<rparr>" and h=1000
           and fFilterSigTime=True and bh=0] h0
  have a: "GetNextMasternodeInQueueForPayment (ex_env_flat\<lparr> IsWinnersListSynced := False \<rparr>)
             1000 True ex_hundred = (False, 0, None)"
    by blast
  from t[where env=ex_env_flat and h=50 and fFilterSigTime=True and bh=0] h1
  have b: "\<not> fst (GetNextMasternodeInQueueForPayment ex_env_flat 50 True ex_hundred) \<and>
      snd (snd (GetNextMasternodeInQueueForPayment ex_env_flat 50 True ex_hundred)) = None"
    by blast
  from t[where env=ex_env_flat and h=1000 and fFilterSigTime=True and bh=0] h2
  obtain res where
    "GetNextMasternodeInQueueForPayment ex_env_flat 1000 True ex_hundred
       = (res \<noteq> None, int (length (last_paid_vec ex_env_flat 1000
            (True \<and> \<not> int (length (last_paid_vec ex_env_flat 1000 True
                 (CountMasternodes ex_env_flat (-1) ex_hundred) (mapMasternodes ex_hundred)))
               < CountMasternodes ex_env_flat (-1) ex_hundred div 3)
            (CountMasternodes ex_env_flat (-1) ex_hundred) (mapMasternodes ex_hundred))), res)"
    by blast
  then have "GetNextMasternodeInQueueForPayment ex_env_flat 1000 True ex_hundred
      = (res \<noteq> None, 9, res)"
    by (simp add: ex_hundred_count_flat last_paid_vec_flat ex_hundred_vec_True ex_hundred_vec)
  then have c: "\<exists>res. GetNextMasternodeInQueueForPayment ex_env_flat 1000 True ex_hundred
      = (res \<noteq> None, 9, res)"
    by blast
  show ?thesis
    by (intro conjI)
       (rule ex_hundred_wf h0 h1 conjunct1[OF h2] conjunct2[OF h2] a conjunct1[OF b]
          conjunct2[OF b] c ex_hundred_next_flat)+
qed


theorem payment_window_counterexample:
  "CountMasternodes ex_env (-1) ex_two div 10 = 0 \<and>
   GetNextMasternodeInQueueForPayment ex_env 200 False ex_two = (True, 2, Some (ex_entry 1 11)) \<and>
   ex_entry 1 11 \<notin> snd ` set (take (nat (CountMasternodes ex_env (-1) ex_two div 10))
      (std_sort CompareLastPaidBlock
         (last_paid_vec ex_env 200 False (CountMasternodes ex_env (-1) ex_two)
            (mapMasternodes ex_two)))) \<and>
   (0, ex_entry 7 77) \<in> set (last_paid_vec ex_env 200 False
        (CountMasternodes ex_env (-1) ex_two) (mapMasternodes ex_two)) \<and>
   CalculateScore ex_env (ex_entry 1 11) 0 < CalculateScore ex_env (ex_entry 7 77) 0"
  by (simp add: ex_two_count ex_two_next ex_two_vec) (simp add: ex_entry_def)

text \<open>
  Claim C3, as the code has it. When the count of entries is 100, exactly nine candidates pass
  the filters and the block hash at \<open>h - 101\<close> is available, the window of ten covers all
  nine candidates, and the call returns a candidate whose score is positive and not below the
  score of any candidate (no entry when all nine scores are zero): the best score decides,
  not the oldest payment.
\<close>

theorem window_of_ten_covers_nine:
  assumes "IsWinnersListSynced env"
    and "CountMasternodes env (-1) st = 100"
    and "vec = last_paid_vec env h False 100 (mapMasternodes st)"
    and "length vec = 9"
    and "GetBlockHash env (h - 101) = Some bh"
  shows "\<exists>res. GetNextMasternodeInQueueForPayment env h fFilterSigTime st = (res \<noteq> None, 9, res) \<and>
           (case res of
              None \<Rightarrow> \<forall>s \<in> set vec. CalculateScore env (snd s) bh = 0
            | Some mn \<Rightarrow> \<exists>s \<in> set vec. mn = snd s \<and> 0 < CalculateScore env mn bh \<and>
                (\<forall>t \<in> set vec. CalculateScore env (snd t) bh \<le> CalculateScore env mn bh))"
proof -
  let ?srt = "std_sort CompareLastPaidBlock vec"
  let ?res = "best_of_tenth env bh 10 ?srt 0 0 None"
  have "length (last_paid_vec env h True 100 (mapMasternodes st)) \<le> 9"
    using length_last_paid_vec_filter[where env=env and h=h and n=100 and m="mapMasternodes st"] assms(3,4) by simp
  then have eff: "(fFilterSigTime \<and>
      \<not> int (length (last_paid_vec env h True (CountMasternodes env (-1) st) (mapMasternodes st)))
          < CountMasternodes env (-1) st div 3) = False"
    by (simp add: assms(2))
  have r: "GetNextMasternodeInQueueForPayment env h fFilterSigTime st = (?res \<noteq> None, 9, ?res)"
    unfolding GetNext_effective[OF assms(1)] eff
    using assms(2,4,5) by (simp add: payment_result_def Let_def assms(3)[symmetric])
  have "length ?srt = 9" using assms(4) by (simp add: length_std_sort)
  then have w: "take (nat (max 1 10)) ?srt = ?srt" by simp
  have "case ?res of
              None \<Rightarrow> \<forall>s \<in> set ?srt. CalculateScore env (snd s) bh = 0
            | Some mn \<Rightarrow> \<exists>s \<in> set ?srt. mn = snd s \<and> 0 < CalculateScore env mn bh \<and>
                (\<forall>t \<in> set ?srt. CalculateScore env (snd t) bh \<le> CalculateScore env mn bh)"
    using best_of_tenth_initial[where env=env and bh=bh and n=10 and xs="?srt"] unfolding w .
  then have "case ?res of
              None \<Rightarrow> \<forall>s \<in> set vec. CalculateScore env (snd s) bh = 0
            | Some mn \<Rightarrow> \<exists>s \<in> set vec. mn = snd s \<and> 0 < CalculateScore env mn bh \<and>
                (\<forall>t \<in> set vec. CalculateScore env (snd t) bh \<le> CalculateScore env mn bh)"
    by (simp only: set_std_sort)
  with r show ?thesis by blast
qed

lemma ex_hundred_next:
  "GetNextMasternodeInQueueForPayment ex_env 1000 False ex_hundred = (True, 9, Some (ex_paid 9))"
  by (simp add: GetNext_False payment_result_def ex_hundred_count ex_hundred_vec std_sort_def
        CompareLastPaidBlock_def Let_def ex_paid_def ex_entry_def)

theorem window_of_ten_covers_nine_witness:
  "IsWinnersListSynced ex_env \<and>
   CountMasternodes ex_env (-1) ex_hundred = 100 \<and>
   length (last_paid_vec ex_env 1000 False 100 (mapMasternodes ex_hundred)) = 9 \<and>
   GetBlockHash ex_env (1000 - 101) = Some 0 \<and>
   (\<exists>res. GetNextMasternodeInQueueForPayment ex_env 1000 True ex_hundred = (res \<noteq> None, 9, res) \<and>
      (case res of
         None \<Rightarrow> \<forall>s \<in> set (last_paid_vec ex_env 1000 False 100 (mapMasternodes ex_hundred)).
                    CalculateScore ex_env (snd s) 0 = 0
       | Some mn \<Rightarrow> \<exists>s \<in> set (last_paid_vec ex_env 1000 False 100 (mapMasternodes ex_hundred)).
            mn = snd s \<and> 0 < CalculateScore ex_env mn 0 \<and>
            (\<forall>t \<in> set (last_paid_vec ex_env 1000 False 100 (mapMasternodes ex_hundred)).
                CalculateScore ex_env (snd t) 0 \<le> CalculateScore ex_env mn 0)))"
proof -
  have h1: "IsWinnersListSynced ex_env" by simp
  have h4: "length (last_paid_vec ex_env 1000 False 100 (mapMasternodes ex_hundred)) = 9"
    by (simp add: ex_hundred_vec)
  have h5: "GetBlockHash ex_env (1000 - 101) = Some 0" by simp
  show ?thesis
    using h1 ex_hundred_count h4 h5
      window_of_ten_covers_nine [OF h1 ex_hundred_count refl h4 h5, of True]
    by blast
qed

theorem oldest_not_selected_counterexample:
  "CountMasternodes ex_env (-1) ex_hundred = 100 \<and>
   map fst (last_paid_vec ex_env 1000 False 100 (mapMasternodes ex_hundred))
     = [1, 2, 3, 4, 5, 6, 7, 8, 9] \<and>
   (1, ex_paid 1) \<in> set (last_paid_vec ex_env 1000 False 100 (mapMasternodes ex_hundred)) \<and>
   GetNextMasternodeInQueueForPayment ex_env 1000 False ex_hundred = (True, 9, Some (ex_paid 9)) \<and>
   nBlockLastPaid (ex_paid 9) = 9"
  by (simp add: ex_hundred_count ex_hundred_vec ex_hundred_next) (simp add: ex_paid_def)

section \<open>Properties of the verification protocol\<close>

lemma Find_AddFulfilledRequest [simp]: "Find k (AddFulfilledRequest a tag st) = Find k st"
  by (simp add: AddFulfilledRequest_def Find_def)

lemma mapMasternodes_AddFulfilledRequest [simp]:
  "mapMasternodes (AddFulfilledRequest a tag st) = mapMasternodes st"
  by (simp add: AddFulfilledRequest_def)

lemma verify_reply_found_Find:
  "Find k (rl_man (snd (verify_reply_found env pnode bh p acc))) =
     (if k = fst p
      then map_option (\<lambda>mn. if \<not> IsPoSeVerified env (snd p) then mn_DecreasePoSeBanScore env mn else mn)
             (Find k (rl_man acc))
      else Find k (rl_man acc))"
  by (cases acc)
     (simp add: verify_reply_found_def rl_man_def Let_def Find_def map_of_update_entry
         option.map_ident split: option.splits)

lemma verify_reply_found_ban:
  "rl_ban (snd (verify_reply_found env pnode bh p acc)) = rl_ban acc"
  by (cases acc)
     (simp add: verify_reply_found_def rl_ban_def Let_def split: option.splits)

lemma verify_reply_loop_Cons:
  "verify_reply_loop env pnode bh hash1 msg (p # rest) acc =
     (if addr (snd p) = node_addr pnode then
        (if verifies_sig1 env hash1 msg (fst acc) (snd p) then
           (if fst (verify_reply_found env pnode bh p acc)
            then (True, snd (verify_reply_found env pnode bh p acc))
            else verify_reply_loop env pnode bh hash1 msg rest
                   (snd (verify_reply_found env pnode bh p acc)))
         else verify_reply_loop env pnode bh hash1 msg rest
                (fst acc, rl_man acc, fst (snd (snd acc)), fst (snd (snd (snd acc))),
                 rl_ban acc @ [fst p]))
      else verify_reply_loop env pnode bh hash1 msg rest acc)"
  by (cases acc) (simp add: rl_man_def rl_ban_def split: prod.splits bool.splits)

lemma verify_reply_loop_keeps:
  assumes "\<forall>p \<in> set xs. fst p \<noteq> k"
  shows "Find k (rl_man (snd (verify_reply_loop env pnode bh hash1 msg xs acc)))
           = Find k (rl_man acc) \<and>
         set (rl_ban (snd (verify_reply_loop env pnode bh hash1 msg xs acc)))
           \<subseteq> set (rl_ban acc) \<union> fst ` set xs"
  using assms
proof (induction xs arbitrary: acc)
  case Nil
  then show ?case by simp
next
  case (Cons p xs)
  then have k: "k \<noteq> fst p" and rest: "\<forall>p \<in> set xs. fst p \<noteq> k" by auto
  note IH = Cons.IH[OF rest]
  let ?f = "verify_reply_found env pnode bh p acc"
  let ?b = "(fst acc, rl_man acc, fst (snd (snd acc)), fst (snd (snd (snd acc))),
                 rl_ban acc @ [fst p])"
  have f1: "Find k (rl_man (snd ?f)) = Find k (rl_man acc)"
    using k by (simp add: verify_reply_found_Find)
  have f2: "rl_ban (snd ?f) = rl_ban acc" by (rule verify_reply_found_ban)
  have b1: "rl_man ?b = rl_man acc" by (simp add: rl_man_def)
  have b2: "rl_ban ?b = rl_ban acc @ [fst p]" by (simp add: rl_ban_def)
  show ?case
    unfolding verify_reply_loop_Cons
    using IH[of "snd ?f"] IH[of ?b] IH[of acc] f1 f2 b1 b2
    by (auto simp del: verify_reply_loop.simps)
qed

lemma verify_reply_loop_prefix:
  assumes "\<forall>p \<in> set pre. \<not> (addr (snd p) = node_addr pnode \<and>
              verifies_sig1 env hash1 msg mnv (snd p))"
  shows "\<exists>ban'. set ban' \<subseteq> set ban \<union> fst ` set pre \<and>
           verify_reply_loop env pnode bh hash1 msg (pre @ rest) (mnv, st, ev, pr, ban)
             = verify_reply_loop env pnode bh hash1 msg rest (mnv, st, ev, pr, ban')"
  using assms
proof (induction pre arbitrary: ban)
  case Nil
  then show ?case by auto
next
  case (Cons p pre)
  then have rest: "\<forall>p \<in> set pre. \<not> (addr (snd p) = node_addr pnode \<and>
              verifies_sig1 env hash1 msg mnv (snd p))"
    and p: "\<not> (addr (snd p) = node_addr pnode \<and> verifies_sig1 env hash1 msg mnv (snd p))"
    by auto
  show ?case
  proof (cases "addr (snd p) = node_addr pnode")
    case True
    with p have nv: "\<not> verifies_sig1 env hash1 msg mnv (snd p)" by simp
    from Cons.IH[OF rest, of "ban @ [fst p]"] obtain ban' where
      "set ban' \<subseteq> set (ban @ [fst p]) \<union> fst ` set pre"
      "verify_reply_loop env pnode bh hash1 msg (pre @ rest) (mnv, st, ev, pr, ban @ [fst p])
             = verify_reply_loop env pnode bh hash1 msg rest (mnv, st, ev, pr, ban')"
      by blast
    then show ?thesis using True nv by auto
  next
    case False
    from Cons.IH[OF rest, of ban] obtain ban' where
      "set ban' \<subseteq> set ban \<union> fst ` set pre"
      "verify_reply_loop env pnode bh hash1 msg (pre @ rest) (mnv, st, ev, pr, ban)
             = verify_reply_loop env pnode bh hash1 msg rest (mnv, st, ev, pr, ban')"
      by blast
    then show ?thesis using False by auto
  qed
qed

lemma increase_all_Find: "k \<notin> set ks \<Longrightarrow> Find k (increase_all env ks st) = Find k st"
  by (induction ks arbitrary: st) (auto simp: Find_update_other)

lemma ProcessVerifyReply_loop:
  assumes "HasFulfilledRequest (node_addr pnode) (MNVERIFY @ ''-request'') st"
    and "mWeAskedForVerification st (node_addr pnode) = Some asked"
    and "nonce asked = nonce mnv"
    and "nBlockHeight_v asked = nBlockHeight_v mnv"
    and "GetBlockHash env (nBlockHeight_v mnv) = Some bh"
    and "r = verify_reply_loop env pnode bh (GetSignatureHash1 env mnv bh)
               (strMessage1 env (node_addr pnode) (nonce mnv) bh) (mapMasternodes st)
               (mnv, st,
                if HasFulfilledRequest (node_addr pnode) (MNVERIFY @ ''-done'') st
                then [Misbehaving (node_id pnode) 2] else [], None, [])"
  shows "fst (ProcessVerifyReply env pnode mnv st) =
           (if fst r then rl_man (snd r) else increase_all env (rl_ban (snd r)) (rl_man (snd r)))"
  using assms(1-5) unfolding assms(6)
  by (simp add: ProcessVerifyReply_def asked_for_verification_def Let_def rl_man_def rl_ban_def
        split: prod.splits bool.splits)

text \<open>
  Claim C5. Let a reply arrive from a peer for which a request is outstanding, with the nonce
  and the block height of that request, and let the block hash at that height be known. Let
  \<open>(k, mn)\<close> be the first entry of the registry, in key order, that is at the peer's address
  and whose service key verifies \<open>sig1\<close>. After \<open>ProcessVerifyReply\<close> the entry under \<open>k\<close> is
  \<open>mn\<close> with its ban score lowered by exactly one if \<open>mn\<close> was not PoSe-verified and its
  score was above zero, and is \<open>mn\<close> itself otherwise.
\<close>

theorem verify_reply_decreases_first_match:
  assumes req: "HasFulfilledRequest (node_addr pnode) (MNVERIFY @ ''-request'') st"
    and asked: "mWeAskedForVerification st (node_addr pnode) = Some asked"
      "nonce asked = nonce mnv" "nBlockHeight_v asked = nBlockHeight_v mnv"
    and bh: "GetBlockHash env (nBlockHeight_v mnv) = Some bh"
    and hash1: "hash1 = GetSignatureHash1 env mnv bh"
    and msg: "msg = strMessage1 env (node_addr pnode) (nonce mnv) bh"
    and reg: "mapMasternodes st = pre @ (k, mn) # post"
    and dist: "distinct (map fst (mapMasternodes st))"
    and first: "\<forall>p \<in> set pre. \<not> (addr (snd p) = node_addr pnode \<and>
                  verifies_sig1 env hash1 msg mnv (snd p))"
    and match: "addr mn = node_addr pnode" "verifies_sig1 env hash1 msg mnv mn"
  shows "Find k (fst (ProcessVerifyReply env pnode mnv st)) =
           Some (if \<not> IsPoSeVerified env mn \<and> 0 < nPoSeBanScore mn
                 then mn\<lparr> nPoSeBanScore := nPoSeBanScore mn - 1 \<rparr> else mn)"
proof -
  let ?ev0 = "if HasFulfilledRequest (node_addr pnode) (MNVERIFY @ ''-done'') st
                then [Misbehaving (node_id pnode) 2] else []"
  let ?r = "verify_reply_loop env pnode bh hash1 msg (mapMasternodes st) (mnv, st, ?ev0, None, [])"
  let ?exp = "if \<not> IsPoSeVerified env mn then mn_DecreasePoSeBanScore env mn else mn"
  have kpre: "\<forall>p \<in> set pre. fst p \<noteq> k" and kpost: "\<forall>p \<in> set post. fst p \<noteq> k"
    using dist unfolding reg by auto
  have fk: "Find k st = Some mn"
    using kpre unfolding Find_def reg
    by (simp add: map_of_append map_add_def map_of_eq_None_iff [THEN iffD2] image_iff
          split: option.splits)
       (metis fst_conv map_of_SomeD)
  from verify_reply_loop_prefix[OF first, of "[]" bh "(k, mn) # post" st ?ev0 None]
  obtain ban1 where ban1: "set ban1 \<subseteq> fst ` set pre"
    and r1: "?r = verify_reply_loop env pnode bh hash1 msg ((k, mn) # post) (mnv, st, ?ev0, None, ban1)"
    unfolding reg by auto
  let ?acc = "(mnv, st, ?ev0, None, ban1)"
  let ?f = "verify_reply_found env pnode bh (k, mn) ?acc"
  have r2: "?r = (if fst ?f then (True, snd ?f)
                  else verify_reply_loop env pnode bh hash1 msg post (snd ?f))"
    unfolding r1 verify_reply_loop_Cons using match by simp
  have f1: "Find k (rl_man (snd ?f)) = Some ?exp"
    using fk verify_reply_found_Find[of k env pnode bh "(k, mn)" ?acc]
    by (simp add: rl_man_def)
  have f2: "rl_ban (snd ?f) = ban1"
    using verify_reply_found_ban[of env pnode bh "(k, mn)" ?acc]
    by (simp add: rl_ban_def)
  have knb: "k \<notin> set ban1" using ban1 kpre by auto
  have res: "Find k (fst (ProcessVerifyReply env pnode mnv st)) = Some ?exp"
  proof (cases "fst ?f")
    case True
    then have "?r = (True, snd ?f)" using r2 by simp
    then show ?thesis
      using ProcessVerifyReply_loop[OF req asked bh refl] f1
      unfolding hash1 msg by simp
  next
    case False
    let ?l = "verify_reply_loop env pnode bh hash1 msg post (snd ?f)"
    from False have rl: "?r = ?l" using r2 by simp
    from verify_reply_loop_keeps[OF kpost, of env pnode bh hash1 msg "snd ?f"]
    have l1: "Find k (rl_man (snd ?l)) = Some ?exp"
      and l2: "set (rl_ban (snd ?l)) \<subseteq> set ban1 \<union> fst ` set post"
      using f1 f2 by auto
    have "k \<notin> set (rl_ban (snd ?l))" using l2 knb kpost by auto
    then have "Find k (increase_all env (rl_ban (snd ?l)) (rl_man (snd ?l))) = Some ?exp"
      using l1 by (simp add: increase_all_Find)
    then show ?thesis
      using ProcessVerifyReply_loop[OF req asked bh refl] l1 rl
      unfolding hash1 msg by simp
  qed
  have "?exp = (if \<not> IsPoSeVerified env mn \<and> 0 < nPoSeBanScore mn
                 then mn\<lparr> nPoSeBanScore := nPoSeBanScore mn - 1 \<rparr> else mn)"
    by (simp add: mn_DecreasePoSeBanScore_def)
  with res show ?thesis by simp
qed

theorem verify_reply_decreases_first_match_witness:
  "HasFulfilledRequest (node_addr ex_node) (MNVERIFY @ ''-request'') ex_asked \<and>
   mWeAskedForVerification ex_asked (node_addr ex_node) = Some ex_request \<and>
   nonce ex_request = nonce ex_reply \<and>
   nBlockHeight_v ex_request = nBlockHeight_v ex_reply \<and>
   GetBlockHash ex_env (nBlockHeight_v ex_reply) = Some 0 \<and>
   mapMasternodes ex_asked = [] @ ((1, 0), ex_target) # [((7, 0), ex_entry 7 77)] \<and>
   addr ex_target = node_addr ex_node \<and>
   verifies_sig1 ex_env (GetSignatureHash1 ex_env ex_reply 0)
      (strMessage1 ex_env (node_addr ex_node) (nonce ex_reply) 0) ex_reply ex_target \<and>
   nPoSeBanScore ex_target = 2 \<and>
   Find (1, 0) (fst (ProcessVerifyReply ex_env ex_node ex_reply ex_asked))
     = Some (ex_target\<lparr> nPoSeBanScore := 1 \<rparr>)"
proof -
  have req: "HasFulfilledRequest (node_addr ex_node) (MNVERIFY @ ''-request'') ex_asked"
    by (simp add: HasFulfilledRequest_def ex_asked_def ex_node_def)
  have asked: "mWeAskedForVerification ex_asked (node_addr ex_node) = Some ex_request"
    "nonce ex_request = nonce ex_reply" "nBlockHeight_v ex_request = nBlockHeight_v ex_reply"
    by (simp_all add: ex_asked_def ex_node_def ex_reply_def)
  have bh: "GetBlockHash ex_env (nBlockHeight_v ex_reply) = Some 0"
    by (simp add: ex_reply_def ex_request_def)
  have reg: "mapMasternodes ex_asked = [] @ ((1, 0), ex_target) # [((7, 0), ex_entry 7 77)]"
    by (simp add: ex_asked_def)
  have dist: "distinct (map fst (mapMasternodes ex_asked))"
    by (simp add: ex_asked_def)
  have first: "\<forall>p \<in> set []. \<not> (addr (snd p) = node_addr ex_node \<and>
        verifies_sig1 ex_env (GetSignatureHash1 ex_env ex_reply 0)
          (strMessage1 ex_env (node_addr ex_node) (nonce ex_reply) 0) ex_reply (snd p))"
    by simp
  have match: "addr ex_target = node_addr ex_node"
    "verifies_sig1 ex_env (GetSignatureHash1 ex_env ex_reply 0)
      (strMessage1 ex_env (node_addr ex_node) (nonce ex_reply) 0) ex_reply ex_target"
    by (simp_all add: ex_target_def ex_entry_def ex_node_def verifies_sig1_def ex_reply_def)
  have sc: "nPoSeBanScore ex_target = 2" by (simp add: ex_target_def)
  have nv: "\<not> IsPoSeVerified ex_env ex_target" by simp
  from verify_reply_decreases_first_match [OF req asked bh refl refl reg dist first match]
  have "Find (1, 0) (fst (ProcessVerifyReply ex_env ex_node ex_reply ex_asked))
     = Some (ex_target\<lparr> nPoSeBanScore := 1 \<rparr>)"
    using sc nv by simp
  then show ?thesis using req asked bh reg match sc by blast
qed

text \<open>
  Claim C6, as the code has it. For a broadcast whose two outpoints are equal,
  \<open>ProcessVerifyBroadcast\<close> changes no registry entry and relays nothing. A broadcast already
  in the seen cache is dropped without any call. Otherwise it is put into the seen cache,
  which is the only change of the manager, and \<open>Misbehaving(peer, 100)\<close> is the one call made,
  unless the broadcast is older than \<open>MAX_POSE_BLOCKS\<close> blocks behind the cached tip, in which
  case no call is made.
\<close>

theorem self_verify_broadcast:
  assumes "masternodeOutpoint1 mnv = masternodeOutpoint2 mnv"
  shows "ProcessVerifyBroadcast env pnode mnv st =
           (if mapSeenMasternodeVerification st (GetHash_mnv env mnv) \<noteq> None then (st, [])
            else (st\<lparr> mapSeenMasternodeVerification :=
                        (mapSeenMasternodeVerification st)(GetHash_mnv env mnv \<mapsto> mnv) \<rparr>,
                  if nBlockHeight_v mnv < nCachedBlockHeight st - MAX_POSE_BLOCKS env then []
                  else [Misbehaving (node_id pnode) 100])) \<and>
         mapMasternodes (fst (ProcessVerifyBroadcast env pnode mnv st)) = mapMasternodes st \<and>
         (\<forall>v. RelayVerification v \<notin> set (snd (ProcessVerifyBroadcast env pnode mnv st)))"
  using assms by (simp add: ProcessVerifyBroadcast_def Let_def)

theorem self_verify_broadcast_witness:
  "masternodeOutpoint1 ex_self_mnv = masternodeOutpoint2 ex_self_mnv \<and>
   mapSeenMasternodeVerification ex_two (GetHash_mnv ex_env ex_self_mnv) = None \<and>
   \<not> nBlockHeight_v ex_self_mnv < nCachedBlockHeight ex_two - MAX_POSE_BLOCKS ex_env \<and>
   snd (ProcessVerifyBroadcast ex_env ex_node ex_self_mnv ex_two) = [Misbehaving 5 100] \<and>
   mapMasternodes (fst (ProcessVerifyBroadcast ex_env ex_node ex_self_mnv ex_two))
     = mapMasternodes ex_two"
proof -
  have h: "masternodeOutpoint1 ex_self_mnv = masternodeOutpoint2 ex_self_mnv"
    by (simp add: ex_self_mnv_def)
  have s: "mapSeenMasternodeVerification ex_two (GetHash_mnv ex_env ex_self_mnv) = None"
    by (simp add: ex_two_def Add_def Has_def HasAddr_def CMasternodeMan_init_def ex_entry_def)
  have o: "\<not> nBlockHeight_v ex_self_mnv < nCachedBlockHeight ex_two - MAX_POSE_BLOCKS ex_env"
    by (simp add: ex_two_def Add_def Has_def HasAddr_def CMasternodeMan_init_def ex_entry_def
          ex_self_mnv_def)
  have i: "node_id ex_node = 5" by (simp add: ex_node_def)
  show ?thesis
    using h s o i self_verify_broadcast [OF h, of ex_env ex_node ex_two]
    by (simp del: fun_upd_apply)
qed

lemma ex_two_fields:
  "mapSeenMasternodeVerification ex_two = Map.empty" "nCachedBlockHeight ex_two = 100"
  by (simp_all add: ex_two_def Add_def Has_def HasAddr_def CMasternodeMan_init_def ex_entry_def)

lemma ex_self_first:
  "ProcessVerifyBroadcast ex_env ex_node ex_self_mnv ex_two =
     (ex_two\<lparr> mapSeenMasternodeVerification := [43 \<mapsto> ex_self_mnv] \<rparr>, [Misbehaving 5 100])"
  by (simp add: ProcessVerifyBroadcast_def Let_def ex_two_fields)
     (simp add: ex_self_mnv_def ex_node_def)

theorem self_verify_broadcast_counterexample:
  "masternodeOutpoint1 ex_self_mnv = masternodeOutpoint2 ex_self_mnv \<and>
   mapSeenMasternodeVerification ex_two 43 = None \<and>
   mapSeenMasternodeVerification
      (fst (ProcessVerifyBroadcast ex_env ex_node ex_self_mnv ex_two)) 43 = Some ex_self_mnv \<and>
   snd (ProcessVerifyBroadcast ex_env ex_node ex_self_mnv
          (fst (ProcessVerifyBroadcast ex_env ex_node ex_self_mnv ex_two))) = []"
  by (simp add: ex_self_first ex_two_fields)
     (simp add: ProcessVerifyBroadcast_def ex_self_mnv_def)

section \<open>Properties of the duplicate-address sweep\<close>

lemma ex_at_simps [simp]:
  "outpoint (ex_at h ip p s) = (h, 0)" "addr (ex_at h ip p s) = (ip, p)"
  "nPoSeBanScore (ex_at h ip p s) = s" "nActiveState (ex_at h ip p s) = MASTERNODE_ENABLED"
  by (simp_all add: ex_at_def ex_entry_def)















lemma filter_key_singleton:
  assumes "distinct (map f xs)" and "k \<in> set xs"
  shows "filter (\<lambda>x. f k = f x) xs = [k]"
  using assms
proof (induction xs)
  case Nil
  then show ?case by simp
next
  case (Cons x xs)
  show ?case
  proof (cases "x = k")
    case True
    from Cons.prems(1) have "f k \<notin> f ` set xs" unfolding True by simp
    then have "filter (\<lambda>x. f k = f x) xs = []"
      by (simp add: filter_empty_conv image_iff)
    then show ?thesis unfolding True by simp
  next
    case False
    with Cons.prems have mem: "k \<in> set xs" by simp
    then have "f k \<in> f ` set xs" by (rule imageI)
    moreover from Cons.prems(1) have "f x \<notin> f ` set xs" by simp
    ultimately have "f k \<noteq> f x" by metis
    moreover from Cons.prems(1) have "distinct (map f xs)" by simp
    ultimately show ?thesis using Cons.IH mem by simp
  qed
qed

lemma sorts_by_unique:
  assumes "sorts_by cmp f"
    and k: "\<And>a b. cmp a b \<longleftrightarrow> (key a :: 'k::linorder) < key b"
    and d: "distinct (map key v)"
  shows "f v = std_sort cmp v"
proof -
  from assms(1) have m: "mset (f v) = mset v"
    and s: "sorted_wrt (\<lambda>a b. \<not> cmp b a) (f v)"
    by (simp_all add: sorts_by_def)
  from s have "sorted_wrt (\<lambda>a b. key a \<le> key b) (f v)"
    by (simp add: k not_less)
  then have s': "sorted (map key (f v))"
    by (simp add: sorted_wrt_map)
  from m have "distinct (map key (f v)) = distinct (map key v)"
    by (rule mset_eq_distinct_map)
  with d have d': "distinct (map key (f v))" by blast
  from m have se: "set (f v) = set v" by (rule mset_eq_setD)
  have "sort_key key v = f v"
  proof (rule properties_for_sort_key[OF m _ s'])
    fix x assume x: "x \<in> set (f v)"
    then have "x \<in> set v" by (simp only: se)
    then have "filter (\<lambda>y. key x = key y) v = [x]"
      by (rule filter_key_singleton[OF d])
    moreover have "filter (\<lambda>y. key x = key y) (f v) = [x]"
      using d' x by (rule filter_key_singleton)
    ultimately show "filter (\<lambda>y. key x = key y) (f v) = filter (\<lambda>y. key x = key y) v"
      by (simp only:)
  qed
  then show ?thesis by (simp only: std_sort_key[OF k])
qed

lemma CheckSameAddr_with_cong:
  assumes "sa (snd (same_addr_collect env (mapMasternodes st)))
             = sa' (snd (same_addr_collect env (mapMasternodes st)))"
    and "sp (snd (same_addr_collect env (mapMasternodes st)))
             = sp' (snd (same_addr_collect env (mapMasternodes st)))"
  shows "CheckSameAddr_with sa sp env st = CheckSameAddr_with sa' sp' env st"
proof -
  obtain m' vec where c: "same_addr_collect env (mapMasternodes st) = (m', vec)"
    by (cases "same_addr_collect env (mapMasternodes st)") auto
  from assms have "sa vec = sa' vec" "sp vec = sp' vec" unfolding c by simp_all
  then show ?thesis by (simp add: CheckSameAddr_with_def c)
qed

lemma ex_triple_collect:
  "snd (same_addr_collect ex_env (mapMasternodes ex_triple)) =
     [((1, 0), ex_at 1 11 1 1), ((2, 0), ex_at 2 11 2 2), ((3, 0), ex_at 3 11 3 0)]"
  by (simp add: ex_triple_def)

lemma ex_triple_any_sort:
  assumes "sorts_by CompareByAddr sa" and "sorts_by CompareByPoSeBanScore sp"
  shows "CheckSameAddr_with sa sp ex_env ex_triple =
         CheckSameAddr_with (std_sort CompareByAddr) (std_sort CompareByPoSeBanScore)
           ex_env ex_triple"
proof (rule CheckSameAddr_with_cong)
  let ?v = "snd (same_addr_collect ex_env (mapMasternodes ex_triple))"
  have "distinct (map (\<lambda>t. addr (snd t)) ?v)"
    unfolding ex_triple_collect by simp
  then show "sa ?v = std_sort CompareByAddr ?v"
    by (rule sorts_by_unique[OF assms(1), rotated]) (simp add: CompareByAddr_def)
  have "distinct (map (\<lambda>t. nPoSeBanScore (snd t)) ?v)"
    unfolding ex_triple_collect by simp
  then show "sp ?v = std_sort CompareByPoSeBanScore ?v"
    by (rule sorts_by_unique[OF assms(2), rotated]) (simp add: CompareByPoSeBanScore_def)
qed













section \<open>Properties of the housekeeping tick\<close>

lemma ask_ranks_keeps:
  "mapMasternodes (fst (ask_ranks env k hash rs st sr fa)) = mapMasternodes st \<and>
   mapSeenMasternodeBroadcast (fst (ask_ranks env k hash rs st sr fa)) = mapSeenMasternodeBroadcast st \<and>
   mMnbRecoveryGoodReplies (fst (ask_ranks env k hash rs st sr fa)) = mMnbRecoveryGoodReplies st \<and>
   fMasternodesRemoved (fst (ask_ranks env k hash rs st sr fa)) = fMasternodesRemoved st"
  by (induction rs arbitrary: st sr fa) auto

lemma remove_loop_effect:
  "mapMasternodes (fst (remove_loop env xs (st, n, r, d))) =
     filter (\<lambda>p. fst p \<notin> fst ` {x \<in> set xs. removable (snd x)}) (mapMasternodes st) \<and>
   mapSeenMasternodeBroadcast (fst (remove_loop env xs (st, n, r, d))) =
     (\<lambda>h. if h \<in> (\<lambda>x. GetHash_mnb env (mnb_of_mn (snd x))) ` {x \<in> set xs. removable (snd x)}
          then None else mapSeenMasternodeBroadcast st h) \<and>
   mMnbRecoveryGoodReplies (fst (remove_loop env xs (st, n, r, d))) = mMnbRecoveryGoodReplies st"
proof (induction xs arbitrary: st n r d)
  case Nil
  then show ?case by simp
next
  case (Cons x xs)
  show ?case
  proof (cases "removable (snd x)")
    case True
    then have e: "remove_loop env (x # xs) (st, n, r, d) =
        remove_loop env xs (remove_entry env (fst x) (snd x) st, n, r, d)"
      by (simp add: removable_def Let_def)
    have s1: "{xa. (xa = x \<or> xa \<in> set xs) \<and> removable (snd xa)}
        = insert x {xa \<in> set xs. removable (snd xa)}"
      using True by auto
    show ?thesis
      unfolding e
      by (simp add: Cons.IH remove_entry_def map_erase_def s1 fun_eq_iff)
  next
    case False
    have s1: "{xa. (xa = x \<or> xa \<in> set xs) \<and> removable (snd xa)}
        = {xa \<in> set xs. removable (snd xa)}"
      using False by auto
    let ?hash = "GetHash_mnb env (mnb_of_mn (snd x))"
    let ?fAsk = "n > 0 \<and> IsSynced env \<and> IsNewStartRequired (snd x)
                 \<and> \<not> IsMnbRecoveryRequested ?hash st \<and> \<not> IsArgSet_connect env"
    show ?thesis
    proof (cases ?fAsk)
      case True
      let ?ranks = "(if r = []
                         then snd (GetMasternodeRanks env
                                     (GetRandInt env d (nCachedBlockHeight st))
                                     (GetMasternodeRanks_nMinProtocol env) st)
                         else r)"
      let ?a = "ask_ranks env (fst x) ?hash ?ranks st [] False"
      let ?st2 = "(fst ?a)\<lparr> mMnbRecoveryRequests :=
                            (mMnbRecoveryRequests (fst ?a))
                              (?hash \<mapsto> (GetTime env + MNB_RECOVERY_WAIT_SECONDS env,
                                         fst (snd ?a))) \<rparr>"
      have e: "remove_loop env (x # xs) (st, n, r, d) =
          remove_loop env xs (?st2, (if snd (snd ?a) then n - 1 else n), ?ranks,
             (if r = [] then Suc d else d))"
        using True False by (simp add: removable_def Let_def split: prod.splits)
      have k: "mapMasternodes ?st2 = mapMasternodes st"
        "mapSeenMasternodeBroadcast ?st2 = mapSeenMasternodeBroadcast st"
        "mMnbRecoveryGoodReplies ?st2 = mMnbRecoveryGoodReplies st"
        by (simp_all add: ask_ranks_keeps)
      show ?thesis
        unfolding e by (simp only: Cons.IH s1 k list.set(2) insert_iff)
    next
      case F2: False
      have e: "remove_loop env (x # xs) (st, n, r, d) = remove_loop env xs (st, n, r, d)"
        using F2 False by (auto simp: removable_def Let_def)
      show ?thesis
        unfolding e by (simp add: Cons.IH s1)
    qed
  qed
qed

end
